theory Spec2Isabelle
  imports Complex_Main "HOL-Library.Word"
begin

section \<open>Failures\<close>

text \<open>
  \<open>Log::Fatal\<close> ends the process with a message.  Reads that C++ leaves undefined
  (an index past the end of a vector, a null pointer) are kept apart from it.
\<close>

datatype failure = Fatal string | Undefined string

section \<open>String helpers of \<open>Common\<close>\<close>

text \<open>
  Modelled from the spec: \<open>utils/common.h\<close> is not among the sources.  \<open>Split\<close> cuts a
  string at every delimiter character and keeps empty pieces, \<open>Trim\<close> removes white space
  at both ends, \<open>Atoi\<close> reads an optional sign and decimal digits after leading blanks and
  returns the value with the unread rest, \<open>AtoiAndCheck\<close> accepts only when nothing is left
  unread ("numeric index", "\<open>rank=N\<close>" in the spec).
\<close>

fun Split_on :: "(char \<Rightarrow> bool) \<Rightarrow> string \<Rightarrow> string list" where
  "Split_on p [] = [[]]"
| "Split_on p (c # cs) =
     (if p c then [] # Split_on p cs
      else (case Split_on p cs of [] \<Rightarrow> [[c]] | w # ws \<Rightarrow> (c # w) # ws))"

definition Split :: "string \<Rightarrow> char \<Rightarrow> string list" where
  "Split s delimiter = Split_on (\<lambda>c. c = delimiter) s"

definition Split_any :: "string \<Rightarrow> string \<Rightarrow> string list" where
  "Split_any s delimiters = Split_on (\<lambda>c. c \<in> set delimiters) s"

definition is_space :: "char \<Rightarrow> bool" where
  "is_space c = (c \<in> set [CHR '' '', CHR 0x09, CHR 0x0A, CHR 0x0B, CHR 0x0C, CHR 0x0D])"

definition Trim :: "string \<Rightarrow> string" where
  "Trim s = rev (dropWhile is_space (rev (dropWhile is_space s)))"

definition is_digit :: "char \<Rightarrow> bool" where
  "is_digit c = (48 \<le> (of_char c :: nat) \<and> (of_char c :: nat) \<le> 57)"

definition digit_value :: "char \<Rightarrow> int" where
  "digit_value c = int (of_char c) - 48"

definition Atoi :: "string \<Rightarrow> int \<times> string" where
  "Atoi s =
     (let p = dropWhile (\<lambda>c. c = CHR '' '') s;
          (sign, p) = (case p of
                         c # r \<Rightarrow> if c = CHR ''-'' then (-1, r)
                                  else if c = CHR ''+'' then (1, r) else (1, p)
                       | [] \<Rightarrow> (1, p));
          magnitude = foldl (\<lambda>v c. v * 10 + digit_value c) 0 (takeWhile is_digit p)
      in (sign * magnitude, dropWhile (\<lambda>c. c = CHR '' '') (dropWhile is_digit p)))"

definition AtoiAndCheck :: "string \<Rightarrow> int option" where
  "AtoiAndCheck s = (case Atoi s of (v, rest) \<Rightarrow> if rest = [] then Some v else None)"

definition StartsWith :: "string \<Rightarrow> string \<Rightarrow> bool" where
  "StartsWith s prefix = (take (length prefix) s = prefix)"

section \<open>\<open>Dataset\<close>: column options and the guard of \<open>LoadTrainData\<close>\<close>

record IOConfig =
  has_header :: bool
  label_column :: string
  weight_column :: string
  group_column :: string
  ignore_column :: string

record DatasetColumns =
  feature_names :: "string list"
  label_idx :: int
  weight_idx :: int
  group_idx :: int
  ignore_features :: "int set"

definition name_prefix :: string where
  "name_prefix = ''name:''"

text \<open>\<open>name2idx[feature_names[i]] = i\<close> for every header token, a later duplicate winning.\<close>

definition name2idx_of :: "string list \<Rightarrow> (string \<rightharpoonup> int)" where
  "name2idx_of names = fold (\<lambda>(i, n) m. m(n \<mapsto> int i)) (enumerate 0 names) Map.empty"

text \<open>
  The block the constructor repeats for \<open>label_column\<close>, \<open>weight_column\<close> and
  \<open>group_column\<close>: a \<open>name:\<close> option is looked up in the header, anything else must be a
  number; either failure is fatal.
\<close>

definition resolve_column :: "(string \<rightharpoonup> int) \<Rightarrow> string \<Rightarrow> string \<Rightarrow> failure + int" where
  "resolve_column name2idx what col =
     (if StartsWith col name_prefix then
        (case name2idx (drop (length name_prefix) col) of
           Some i \<Rightarrow> Inr i
         | None \<Rightarrow> Inl (Fatal (''cannot find '' @ what @ '' column'')))
      else
        (case AtoiAndCheck col of
           Some i \<Rightarrow> Inr i
         | None \<Rightarrow> Inl (Fatal (what @ ''_column is not a number''))))"

text \<open>One token of \<open>ignore_column\<close>; indices after the label move down by one.\<close>

definition resolve_ignore :: "(string \<rightharpoonup> int) \<Rightarrow> bool \<Rightarrow> int \<Rightarrow> string \<Rightarrow> failure + int" where
  "resolve_ignore name2idx by_name lbl tok =
     (case (if by_name then name2idx tok else AtoiAndCheck tok) of
        None \<Rightarrow> Inl (Fatal (if by_name then ''cannot find column'' else ''ignore_column is not a number''))
      | Some tmp \<Rightarrow> Inr (if tmp > lbl then tmp - 1 else tmp))"

fun resolve_ignores :: "(string \<rightharpoonup> int) \<Rightarrow> bool \<Rightarrow> int \<Rightarrow> string list \<Rightarrow> int set \<Rightarrow> failure + int set" where
  "resolve_ignores name2idx by_name lbl [] acc = Inr acc"
| "resolve_ignores name2idx by_name lbl (t # ts) acc =
     (case resolve_ignore name2idx by_name lbl t of
        Inl e \<Rightarrow> Inl e
      | Inr i \<Rightarrow> resolve_ignores name2idx by_name lbl ts (insert i acc))"

text \<open>
  Fields are named as in the source without the trailing underscore of C++ members,
  which Isabelle reserves.  \<open>Dataset_columns\<close> is the text-file branch of the
  constructor \<open>Dataset::Dataset\<close>, from the header line to \<open>group_idx_\<close>.  The in-class initial values of \<open>label_idx_\<close>, \<open>weight_idx_\<close> and
  \<open>group_idx_\<close> are declared in \<open>dataset.h\<close>, which is not among the sources: they are
  the parameters \<open>label0\<close>, \<open>weight0\<close> and \<open>group0\<close>.
\<close>

definition Dataset_columns ::
  "int \<Rightarrow> int \<Rightarrow> int \<Rightarrow> IOConfig \<Rightarrow> string \<Rightarrow> failure + DatasetColumns" where
  "Dataset_columns label0 weight0 group0 io_config first_line =
     (let names = (if has_header io_config then Split_any first_line [CHR 0x09, CHR '' '', CHR '',''] else []);
          name2idx = (if has_header io_config then name2idx_of names else Map.empty)
      in
      case (if label_column io_config \<noteq> [] then resolve_column name2idx ''label'' (label_column io_config)
            else Inr label0) of
        Inl e \<Rightarrow> Inl e
      | Inr lbl \<Rightarrow>
      if names \<noteq> [] \<and> \<not> (0 \<le> lbl \<and> lbl < int (length names))
      then Inl (Undefined ''feature_names.erase past the end'')
      else
      let names = (if names \<noteq> [] then take (nat lbl) names @ drop (Suc (nat lbl)) names else names)
      in
      case (if ignore_column io_config \<noteq> [] then
              (if StartsWith (ignore_column io_config) name_prefix
               then resolve_ignores name2idx True lbl
                      (Split (drop (length name_prefix) (ignore_column io_config)) CHR '','') {}
               else resolve_ignores name2idx False lbl
                      (Split (ignore_column io_config) CHR '','') {})
            else Inr {}) of
        Inl e \<Rightarrow> Inl e
      | Inr ignored \<Rightarrow>
      case (if weight_column io_config \<noteq> [] then
              map_sum id (\<lambda>w. if w > lbl then w - 1 else w)
                (resolve_column name2idx ''weight'' (weight_column io_config))
            else Inr weight0) of
        Inl e \<Rightarrow> Inl e
      | Inr wgt \<Rightarrow>
      let ignored = (if weight_column io_config \<noteq> [] then insert wgt ignored else ignored)
      in
      case (if group_column io_config \<noteq> [] then
              map_sum id (\<lambda>g. if g > lbl then g - 1 else g)
                (resolve_column name2idx ''group'' (group_column io_config))
            else Inr group0) of
        Inl e \<Rightarrow> Inl e
      | Inr grp \<Rightarrow>
      let ignored = (if group_column io_config \<noteq> [] then insert grp ignored else ignored)
      in Inr \<lparr> feature_names = names, label_idx = lbl, weight_idx = wgt,
               group_idx = grp, ignore_features = ignored \<rparr>)"

text \<open>The first statement of \<open>Dataset::LoadTrainData\<close>: the only place that rejects a query
  column in the data file.\<close>

definition LoadTrainData_guard :: "int \<Rightarrow> bool \<Rightarrow> DatasetColumns \<Rightarrow> failure + unit" where
  "LoadTrainData_guard num_machines is_pre_partition d =
     (if num_machines > 1 \<and> \<not> is_pre_partition \<and> group_idx d > 0
      then Inl (Fatal ''Don't support query id in data file when training parallel without pre-partition'')
      else Inr ())"

text \<open>The constructor followed by \<open>LoadTrainData\<close>, up to the guard.\<close>

definition Dataset_then_LoadTrainData ::
  "int \<Rightarrow> int \<Rightarrow> int \<Rightarrow> IOConfig \<Rightarrow> string \<Rightarrow> int \<Rightarrow> bool \<Rightarrow> failure + DatasetColumns" where
  "Dataset_then_LoadTrainData label0 weight0 group0 io_config first_line num_machines is_pre_partition =
     (case Dataset_columns label0 weight0 group0 io_config first_line of
        Inl e \<Rightarrow> Inl e
      | Inr d \<Rightarrow> map_sum id (\<lambda>_. d) (LoadTrainData_guard num_machines is_pre_partition d))"

text \<open>A data file without header whose column 0 is the label and column 1 the query id.\<close>

definition cfg_query_column :: IOConfig where
  "cfg_query_column = \<lparr> has_header = False, label_column = ''0'', weight_column = '''',
                        group_column = ''1'', ignore_column = '''' \<rparr>"

section \<open>\<open>Linkers\<close>: the machine list and the connect loop\<close>

record Linkers =
  rank :: int
  num_machines :: int
  client_ips :: "string list"
  client_ports :: "int list"
  warnings :: "string list"

text \<open>\<open>static_cast<size_t>\<close> of an \<open>int\<close> on a 64-bit target.\<close>

definition size_t_of_int :: "int \<Rightarrow> nat" where
  "size_t_of_int i = nat (i mod 2 ^ 64)"

text \<open>\<open>line.find_first_of(chars) != npos\<close>: some character of \<open>line\<close> is one of \<open>chars\<close>.\<close>

definition find_first_of_found :: "string \<Rightarrow> string \<Rightarrow> bool" where
  "find_first_of_found line chars = (find (\<lambda>c. c \<in> set chars) line \<noteq> None)"

text \<open>
  The loop of \<open>Linkers::ParseMachineList\<close> over the lines that are left; \<open>break\<close> returns
  the state as it is.  \<open>rank\<close> is written by \<open>Common::Atoi\<close>, the port is read by C's
  \<open>atoi\<close>, which reads the same decimal prefix.
\<close>

fun ParseMachineList_loop :: "string list \<Rightarrow> Linkers \<Rightarrow> failure + Linkers" where
  "ParseMachineList_loop [] s = Inr s"
| "ParseMachineList_loop (l # ls) s =
     (let line = Trim l in
      if find_first_of_found line ''rank='' then
        (let str_after_split = Split line CHR ''='' in
         if length str_after_split < 2 then Inl (Undefined ''str_after_split[1]'')
         else ParseMachineList_loop ls (s\<lparr>rank := fst (Atoi (str_after_split ! 1))\<rparr>))
      else
        (let str_after_split = Split line CHR '' '' in
         if length str_after_split \<noteq> 2 then ParseMachineList_loop ls s
         else if length (client_ips s) \<ge> size_t_of_int (num_machines s) then
           Inr (s\<lparr>warnings := warnings s @ [''The #machine in machine_list is larger than parameter num_machines'']\<rparr>)
         else ParseMachineList_loop ls
                (s\<lparr>client_ips := client_ips s @ [Trim (str_after_split ! 0)],
                   client_ports := client_ports s @ [fst (Atoi (Trim (str_after_split ! 1)))]\<rparr>)))"

definition ParseMachineList :: "string list \<Rightarrow> Linkers \<Rightarrow> failure + Linkers" where
  "ParseMachineList file_lines s =
     (if length file_lines \<le> 0 then Inl (Fatal ''Machine list file doesn't exist'')
      else case ParseMachineList_loop file_lines s of
             Inl e \<Rightarrow> Inl e
           | Inr s' \<Rightarrow>
               Inr (if length (client_ips s') \<noteq> size_t_of_int (num_machines s')
                    then s'\<lparr>warnings := warnings s' @ [''The world size is bigger the #machine in machine list''],
                            num_machines := int (length (client_ips s'))\<rparr>
                    else s'))"

text \<open>The state in which the constructor \<open>Linkers::Linkers\<close> calls \<open>ParseMachineList\<close>.\<close>

definition Linkers_init :: "int \<Rightarrow> Linkers" where
  "Linkers_init config_num_machines =
     \<lparr> rank = -1, num_machines = config_num_machines, client_ips = [], client_ports = [],
       warnings = [] \<rparr>"

text \<open>
  The block of \<open>Linkers::Construct\<close> that connects to one higher rank.  \<open>Connect i\<close> is
  the outcome of the \<open>i\<close>-th call of \<open>cur_socket.Connect\<close>; the loop returns whether the
  socket got connected, how many times \<open>Connect\<close> was called, and the sleeps it made, in
  milliseconds (one after every failed call).
\<close>

definition connect_fail_retry_cnt :: nat where
  "connect_fail_retry_cnt = 20"

definition connect_fail_delay_time :: nat where
  "connect_fail_delay_time = 10 * 1000"

fun connect_loop :: "(nat \<Rightarrow> bool) \<Rightarrow> nat \<Rightarrow> nat \<Rightarrow> bool \<times> nat \<times> nat list" where
  "connect_loop Connect i 0 = (False, 0, [])"
| "connect_loop Connect i (Suc k) =
     (if Connect i then (True, 1, [])
      else (case connect_loop Connect (Suc i) k of
              (ok, calls, sleeps) \<Rightarrow> (ok, Suc calls, connect_fail_delay_time # sleeps)))"

text \<open>
  What the block has done when it is over: the calls of \<open>Connect\<close>, the sleeps, and
  either the failure that ended it or the linker that \<open>SetLinker\<close> stored, given by
  whether its socket is connected.
\<close>

record ConnectRun =
  connect_calls :: nat
  slept_ms :: "nat list"
  linker :: "failure + bool"

text \<open>
  After the loop the local rank is sent on the socket, whatever the loop returned, and
  the socket is stored with \<open>SetLinker\<close>.  The block itself has no \<open>Log::Fatal\<close>; it
  ends early only if \<open>Send\<close> does.  \<open>Send c\<close> is the outcome of
  \<open>cur_socket.Send\<close> on a socket that is connected (\<open>c\<close> true) or not.
\<close>

definition connect_to_rank :: "(bool \<Rightarrow> failure + unit) \<Rightarrow> (nat \<Rightarrow> bool) \<Rightarrow> ConnectRun" where
  "connect_to_rank Send Connect =
     (case connect_loop Connect 0 connect_fail_retry_cnt of
        (ok, calls, sleeps) \<Rightarrow>
          \<lparr> connect_calls = calls, slept_ms = sleeps,
            linker = (case Send ok of Inl e \<Rightarrow> Inl e | Inr u \<Rightarrow> Inr ok) \<rparr>)"

text \<open>
  Modelled from the spec: \<open>TcpSocket::Send\<close> is in \<open>socket_wrapper.hpp\<close>, which is not
  among the sources.  "Connect failures retry a fixed number of times (20) at fixed delay
  (10 s) before becoming fatal", and a connect failure after the retries is a fatal
  \<open>Network\<close> error: sending on a socket that never got connected is \<open>Log::Fatal\<close>, and
  on a connected socket the send returns.
\<close>

definition TcpSocket_Send :: "bool \<Rightarrow> failure + unit" where
  "TcpSocket_Send is_connected =
     (if is_connected then Inr () else Inl (Fatal ''Socket send error''))"

section \<open>\<open>NDCGMetric\<close>\<close>

text \<open>
  \<open>score_t\<close> and \<open>double\<close> values are modelled as reals (rounding is not modelled).
  \<open>DCGCalculator\<close> is not among the sources: \<open>CalMaxDCG i j\<close> and \<open>CalDCG i j\<close> are
  parameters, the values it writes for query \<open>i\<close> at the \<open>j\<close>-th evaluation position.
\<close>

record NDCGMetric =
  eval_at :: "nat list"
  num_queries :: nat
  query_weights :: "real list option"
  sum_query_weights :: real
  inverse_max_dcgs :: "real list list"
  num_threads :: nat

definition NDCG_Init :: "nat list \<Rightarrow> nat \<Rightarrow> nat \<Rightarrow> real list option \<Rightarrow> (nat \<Rightarrow> nat \<Rightarrow> real) \<Rightarrow> NDCGMetric" where
  "NDCG_Init positions threads n_queries weights CalMaxDCG =
     \<lparr> eval_at = positions,
       num_queries = n_queries,
       query_weights = weights,
       sum_query_weights =
         (case weights of
            None \<Rightarrow> real n_queries
          | Some w \<Rightarrow> foldl (\<lambda>acc i. acc + w ! i) 0 [0..<n_queries]),
       inverse_max_dcgs =
         map (\<lambda>i. map (\<lambda>j. if CalMaxDCG i j > 0 then 1 / CalMaxDCG i j else -1)
                       [0..<length positions])
             [0..<n_queries],
       num_threads = threads \<rparr>"

text \<open>What one iteration of the loop over queries adds to its thread's buffer, per position.\<close>

definition NDCG_query_terms :: "NDCGMetric \<Rightarrow> (nat \<Rightarrow> nat \<Rightarrow> real) \<Rightarrow> nat \<Rightarrow> real list" where
  "NDCG_query_terms m CalDCG i =
     (case query_weights m of
        None \<Rightarrow>
          (if inverse_max_dcgs m ! i ! 0 \<le> 0
           then map (\<lambda>j. 1) [0..<length (eval_at m)]
           else map (\<lambda>j. CalDCG i j * (inverse_max_dcgs m ! i ! j)) [0..<length (eval_at m)])
      | Some w \<Rightarrow>
          (if inverse_max_dcgs m ! i ! 0 \<le> 0
           then map (\<lambda>j. 1) [0..<length (eval_at m)]
           else map (\<lambda>j. CalDCG i j * (inverse_max_dcgs m ! i ! j) * (w ! i)) [0..<length (eval_at m)]))"

text \<open>
  \<open>NDCGMetric::Eval\<close>.  \<open>tid i\<close> is the OpenMP thread that runs iteration \<open>i\<close>
  (below \<open>num_threads\<close>).  Reading \<open>inverse_max_dcgs_[i][0]\<close> with no evaluation position
  is undefined.
\<close>

definition NDCG_Eval :: "NDCGMetric \<Rightarrow> (nat \<Rightarrow> nat) \<Rightarrow> (nat \<Rightarrow> nat \<Rightarrow> real) \<Rightarrow> failure + real list" where
  "NDCG_Eval m tid CalDCG =
     (if eval_at m = [] \<and> num_queries m > 0 then Inl (Undefined ''inverse_max_dcgs_[i][0]'')
      else
        let result_buffer =
              foldl (\<lambda>buf i. buf[tid i := map2 (+) (buf ! tid i) (NDCG_query_terms m CalDCG i)])
                    (replicate (num_threads m) (replicate (length (eval_at m)) 0))
                    [0..<num_queries m]
        in Inr (map (\<lambda>j. foldl (\<lambda>acc t. acc + result_buffer ! t ! j) 0 [0..<num_threads m]
                          / sum_query_weights m)
                    [0..<length (eval_at m)]))"

section \<open>\<open>SerialTreeLearner\<close>\<close>

subsection \<open>Capacity of the histogram pool (\<open>Init\<close>)\<close>

text \<open>
  \<open>total_histogram_size\<close> is a \<open>size_t\<close> sum of \<open>sizeof(HistogramBinEntry) * num_bin\<close>
  over the features; the size of an entry is the parameter \<open>sizeof_entry\<close>.
\<close>

definition total_histogram_size :: "nat \<Rightarrow> nat list \<Rightarrow> nat" where
  "total_histogram_size sizeof_entry num_bins =
     foldl (\<lambda>acc nb. (acc + sizeof_entry * nb) mod 2 ^ 64) 0 num_bins"

text \<open>
  The computation of \<open>max_cache_size\<close> in \<open>SerialTreeLearner::Init\<close>.
  \<open>histogram_pool_size_\<close> is a \<open>double\<close> number of MiB, modelled as a real.  The quotient
  is converted with \<open>static_cast<int>\<close>, which truncates and is undefined when the value
  does not fit an \<open>int\<close>, as it is after a division by a total size of zero.
\<close>

definition Init_max_cache_size :: "real \<Rightarrow> int \<Rightarrow> nat \<Rightarrow> nat list \<Rightarrow> failure + int" where
  "Init_max_cache_size histogram_pool_size n_leaves sizeof_entry num_bins =
     (if histogram_pool_size < 0 then Inr (min (max 2 n_leaves) n_leaves)
      else if total_histogram_size sizeof_entry num_bins = 0
      then Inl (Undefined ''static_cast<int> of a division by zero'')
      else if histogram_pool_size * 1024 * 1024 / real (total_histogram_size sizeof_entry num_bins) \<ge> 2 ^ 31
      then Inl (Undefined ''static_cast<int> out of range'')
      else Inr (min (max 2 \<lfloor>histogram_pool_size * 1024 * 1024
                              / real (total_histogram_size sizeof_entry num_bins)\<rfloor>) n_leaves))"

text \<open>The property as the specification words it: the capacity is at least 2 and at most
  \<open>num_leaves\<close>.\<close>

definition capacity_in_range :: "real \<Rightarrow> int \<Rightarrow> nat \<Rightarrow> nat list \<Rightarrow> bool" where
  "capacity_in_range histogram_pool_size n_leaves sizeof_entry num_bins =
     (case Init_max_cache_size histogram_pool_size n_leaves sizeof_entry num_bins of
        Inr K \<Rightarrow> 2 \<le> K \<and> K \<le> n_leaves
      | Inl e \<Rightarrow> False)"

subsection \<open>Splits, leaves and histograms\<close>

record SplitInfo =
  feature :: int
  threshold :: nat
  gain :: real
  left_count :: int
  right_count :: int
  left_sum_gradient :: real
  left_sum_hessian :: real
  right_sum_gradient :: real
  right_sum_hessian :: real
  left_output :: real
  right_output :: real

text \<open>
  Modelled from the spec: \<open>leaf_splits.hpp\<close> is not among the sources.  \<open>LeafSplits\<close>
  holds \<open>{ leaf_id, num_data, sum_g, sum_h }\<close>; \<open>Init(leaf, partition, sum_g, sum_h)\<close>
  accepts precomputed sums and takes the count from the partition.  The sums are named
  \<open>leaf_sum_gradients\<close> and \<open>leaf_sum_hessians\<close> to keep them apart from the fields of a
  histogram bin.
\<close>

record LeafSplits =
  LeafIndex :: int
  num_data_in_leaf :: int
  leaf_sum_gradients :: real
  leaf_sum_hessians :: real

definition LeafSplits_Init :: "int \<Rightarrow> (int \<Rightarrow> int) \<Rightarrow> real \<Rightarrow> real \<Rightarrow> LeafSplits" where
  "LeafSplits_Init leaf leaf_count sum_g sum_h =
     \<lparr> LeafIndex = leaf, num_data_in_leaf = leaf_count leaf,
       leaf_sum_gradients = sum_g, leaf_sum_hessians = sum_h \<rparr>"

text \<open>
  The last statement of \<open>SerialTreeLearner::Split\<close>: the pair
  (\<open>smaller_leaf_splits_\<close>, \<open>larger_leaf_splits_\<close>) for the two children.  \<open>leaf_count\<close> is
  the data partition after its split.
\<close>

definition Split_leaf_splits ::
  "SplitInfo \<Rightarrow> (int \<Rightarrow> int) \<Rightarrow> int \<Rightarrow> int \<Rightarrow> LeafSplits \<times> LeafSplits" where
  "Split_leaf_splits best_split_info leaf_count left_leaf right_leaf =
     (if left_count best_split_info < right_count best_split_info then
        (LeafSplits_Init left_leaf leaf_count
           (left_sum_gradient best_split_info) (left_sum_hessian best_split_info),
         LeafSplits_Init right_leaf leaf_count
           (right_sum_gradient best_split_info) (right_sum_hessian best_split_info))
      else
        (LeafSplits_Init right_leaf leaf_count
           (right_sum_gradient best_split_info) (right_sum_hessian best_split_info),
         LeafSplits_Init left_leaf leaf_count
           (left_sum_gradient best_split_info) (left_sum_hessian best_split_info)))"

text \<open>
  A bin of a histogram: two \<open>double\<close> sums, modelled as reals, and a 32-bit count.
  A \<open>FeatureHistogram\<close> is the array of bins of one feature with its splittable flag.
  Histogram arrays live in the pool and are reached through pointers: a pointer is an
  address (\<open>None\<close> for \<open>nullptr\<close>), and \<open>histograms\<close> maps an address to the array of
  \<open>FeatureHistogram\<close> stored there, one per feature.
\<close>

record HistogramBinEntry =
  sum_gradients :: real
  sum_hessians :: real
  cnt :: "32 word"

record FeatureHistogram =
  data :: "HistogramBinEntry list"
  is_splittable :: bool

type_synonym addr = nat

record 'p SerialTreeLearner =
  num_features :: nat
  best_split_per_leaf :: "SplitInfo list"
  histogram_pool :: 'p
  histograms :: "addr \<Rightarrow> FeatureHistogram list"
  parent_leaf_histogram_array :: "addr option"
  smaller_leaf_histogram_array :: "addr option"
  larger_leaf_histogram_array :: "addr option"
  smaller_leaf_splits :: LeafSplits
  larger_leaf_splits :: "LeafSplits option"
  is_feature_used :: "bool list option"

text \<open>
  What \<open>BeforeFindBestSplit\<close> reads from outside this file: the configuration, the depth
  of a leaf in the tree, the row count of a leaf, and the two operations of the histogram
  pool (\<open>Get\<close> returns whether the leaf was cached, the array and the pool after the
  access; \<open>Move\<close> rebinds an array).  They are parameters.
\<close>

record 'p Collaborators =
  max_depth :: int
  min_num_data_one_leaf :: int
  kMinScore :: real
  leaf_depth :: "int \<Rightarrow> int"
  GetGlobalDataCountInLeaf :: "int \<Rightarrow> int"
  pool_Get :: "'p \<Rightarrow> int \<Rightarrow> bool \<times> addr \<times> 'p"
  pool_Move :: "'p \<Rightarrow> int \<Rightarrow> int \<Rightarrow> 'p"

definition mark_unsplittable :: "'p Collaborators \<Rightarrow> int \<Rightarrow> int \<Rightarrow> SplitInfo list \<Rightarrow> SplitInfo list" where
  "mark_unsplittable env left_leaf right_leaf bs =
     (let bs1 = bs[nat left_leaf := (bs ! nat left_leaf)\<lparr>gain := kMinScore env\<rparr>]
      in if right_leaf \<ge> 0
         then bs1[nat right_leaf := (bs1 ! nat right_leaf)\<lparr>gain := kMinScore env\<rparr>]
         else bs1)"

text \<open>
  \<open>SerialTreeLearner::BeforeFindBestSplit\<close>, up to the assignment of the histogram
  arrays.  The result is the returned flag, the locals \<open>smaller_leaf\<close> and \<open>larger_leaf\<close>,
  and the learner.  The copies into the ordered gradient buffers and the split of the
  ordered bins that follow write none of the fields modelled here.
\<close>

definition BeforeFindBestSplit ::
  "'p Collaborators \<Rightarrow> int \<Rightarrow> int \<Rightarrow> 'p SerialTreeLearner \<Rightarrow> bool \<times> int \<times> int \<times> 'p SerialTreeLearner" where
  "BeforeFindBestSplit env left_leaf right_leaf st =
     (if max_depth env > 0 \<and> leaf_depth env left_leaf \<ge> max_depth env then
        (False, -1, -1,
         st\<lparr>best_split_per_leaf := mark_unsplittable env left_leaf right_leaf (best_split_per_leaf st)\<rparr>)
      else
      let num_data_in_left_child = GetGlobalDataCountInLeaf env left_leaf;
          num_data_in_right_child = GetGlobalDataCountInLeaf env right_leaf
      in
      if num_data_in_right_child < min_num_data_one_leaf env * 2
         \<and> num_data_in_left_child < min_num_data_one_leaf env * 2 then
        (False, -1, -1,
         st\<lparr>best_split_per_leaf := mark_unsplittable env left_leaf right_leaf (best_split_per_leaf st)\<rparr>)
      else
      let st = st\<lparr>parent_leaf_histogram_array := None\<rparr> in
      if right_leaf < 0 then
        (case pool_Get env (histogram_pool st) left_leaf of
           (hit, a, pool1) \<Rightarrow>
             (True, -1, -1,
              st\<lparr>histogram_pool := pool1, smaller_leaf_histogram_array := Some a,
                 larger_leaf_histogram_array := None\<rparr>))
      else if num_data_in_left_child < num_data_in_right_child then
        (case pool_Get env (histogram_pool st) left_leaf of
           (hit, a, pool1) \<Rightarrow>
             (case pool_Get env (pool_Move env pool1 left_leaf right_leaf) left_leaf of
                (hit2, b, pool2) \<Rightarrow>
                  (True, left_leaf, right_leaf,
                   st\<lparr>histogram_pool := pool2,
                      larger_leaf_histogram_array := Some a,
                      parent_leaf_histogram_array := (if hit then Some a else None),
                      smaller_leaf_histogram_array := Some b\<rparr>)))
      else
        (case pool_Get env (histogram_pool st) left_leaf of
           (hit, a, pool1) \<Rightarrow>
             (case pool_Get env pool1 right_leaf of
                (hit2, b, pool2) \<Rightarrow>
                  (True, right_leaf, left_leaf,
                   st\<lparr>histogram_pool := pool2,
                      larger_leaf_histogram_array := Some a,
                      parent_leaf_histogram_array := (if hit then Some a else None),
                      smaller_leaf_histogram_array := Some b\<rparr>))))"

subsection \<open>\<open>Train\<close>\<close>

text \<open>
  Modelled from the spec: \<open>tree.h\<close> is not among the sources.  A \<open>Tree\<close> starts with one
  leaf (the root, leaf 0); \<open>Split\<close> writes a new internal node with the feature, the bin
  threshold, the two outputs and the gain, and returns the index of the new right leaf,
  which is the number of leaves before the split.  (The real feature index and the real
  threshold, which \<open>SerialTreeLearner::Split\<close> looks up in the dataset, are left out.)
\<close>

record TreeNode =
  split_leaf :: int
  split_feature :: int
  threshold_in_bin :: nat
  left_value :: real
  right_value :: real
  split_gain :: real

record Tree =
  max_leaves :: int
  nodes :: "TreeNode list"

definition new_Tree :: "int \<Rightarrow> Tree" where
  "new_Tree n_leaves = \<lparr> max_leaves = n_leaves, nodes = [] \<rparr>"

definition Tree_num_leaves :: "Tree \<Rightarrow> int" where
  "Tree_num_leaves t = int (length (nodes t)) + 1"

definition Tree_Split :: "Tree \<Rightarrow> int \<Rightarrow> SplitInfo \<Rightarrow> int \<times> Tree" where
  "Tree_Split t leaf info =
     (Tree_num_leaves t,
      t\<lparr>nodes := nodes t @
           [\<lparr> split_leaf = leaf, split_feature = feature info, threshold_in_bin = threshold info,
              left_value = left_output info, right_value = right_output info,
              split_gain = gain info \<rparr>]\<rparr>)"

text \<open>
  Modelled from the spec: \<open>ArrayArgs::ArgMax\<close> and the comparison of \<open>SplitInfo\<close> are not
  among the sources.  "Pick the leaf with maximum gain": the first index whose gain no
  later one exceeds, 0 for an empty vector.
\<close>

definition ArgMax_gain :: "SplitInfo list \<Rightarrow> nat" where
  "ArgMax_gain bs = foldl (\<lambda>am i. if gain (bs ! i) > gain (bs ! am) then i else am) 0 [1..<length bs]"

text \<open>
  \<open>SerialTreeLearner::Split\<close>: the tree is split at the best leaf, then the children's
  \<open>LeafSplits\<close> are initialised.  \<open>leaf_count t\<close> gives the row counts of the data
  partition once it has been split along with tree \<open>t\<close>.
\<close>

definition learner_Split ::
  "(Tree \<Rightarrow> int \<Rightarrow> int) \<Rightarrow> nat \<Rightarrow> Tree \<Rightarrow> 'p SerialTreeLearner \<Rightarrow> int \<times> int \<times> Tree \<times> 'p SerialTreeLearner" where
  "learner_Split leaf_count best_leaf tree st =
     (let best_split_info = best_split_per_leaf st ! best_leaf in
      case Tree_Split tree (int best_leaf) best_split_info of
        (right_leaf, tree') \<Rightarrow>
          (case Split_leaf_splits best_split_info (leaf_count tree') (int best_leaf) right_leaf of
             (smaller, larger) \<Rightarrow>
               (int best_leaf, right_leaf, tree',
                st\<lparr>smaller_leaf_splits := smaller, larger_leaf_splits := Some larger\<rparr>)))"

text \<open>
  The first statement of the loop body of \<open>Train\<close>.  \<open>FindBestThresholds\<close> followed by
  \<open>FindBestSplitsForLeaves\<close> is the parameter \<open>find_splits\<close>: any change of the learner.
\<close>

definition search_phase ::
  "(Tree \<Rightarrow> 'p Collaborators) \<Rightarrow> (Tree \<Rightarrow> 'p SerialTreeLearner \<Rightarrow> 'p SerialTreeLearner) \<Rightarrow>
   int \<Rightarrow> int \<Rightarrow> Tree \<Rightarrow> 'p SerialTreeLearner \<Rightarrow> 'p SerialTreeLearner" where
  "search_phase env find_splits left_leaf right_leaf tree st =
     (case BeforeFindBestSplit (env tree) left_leaf right_leaf st of
        (ok, smaller_leaf, larger_leaf, st') \<Rightarrow> if ok then find_splits tree st' else st')"

text \<open>The loop of \<open>Train\<close> with \<open>k\<close> iterations left; \<open>break\<close> returns the tree.\<close>

fun Train_loop ::
  "(Tree \<Rightarrow> 'p Collaborators) \<Rightarrow> (Tree \<Rightarrow> 'p SerialTreeLearner \<Rightarrow> 'p SerialTreeLearner) \<Rightarrow>
   (Tree \<Rightarrow> int \<Rightarrow> int) \<Rightarrow> nat \<Rightarrow> int \<Rightarrow> int \<Rightarrow> Tree \<Rightarrow> 'p SerialTreeLearner \<Rightarrow> failure + Tree" where
  "Train_loop env find_splits leaf_count 0 left_leaf right_leaf tree st = Inr tree"
| "Train_loop env find_splits leaf_count (Suc k) left_leaf right_leaf tree st =
     (let st1 = search_phase env find_splits left_leaf right_leaf tree st;
          best_leaf = ArgMax_gain (best_split_per_leaf st1)
      in if best_leaf \<ge> length (best_split_per_leaf st1)
         then Inl (Undefined ''best_split_per_leaf_[best_leaf]'')
         else if gain (best_split_per_leaf st1 ! best_leaf) \<le> 0 then Inr tree
         else (case learner_Split leaf_count best_leaf tree st1 of
                 (left_leaf', right_leaf', tree', st2) \<Rightarrow>
                   Train_loop env find_splits leaf_count k left_leaf' right_leaf' tree' st2))"

text \<open>\<open>Train\<close>, from the learner as \<open>BeforeTrain\<close> leaves it: \<open>num_leaves - 1\<close> iterations
  at most, starting with the root as left leaf and no right leaf.\<close>

definition Train ::
  "(Tree \<Rightarrow> 'p Collaborators) \<Rightarrow> (Tree \<Rightarrow> 'p SerialTreeLearner \<Rightarrow> 'p SerialTreeLearner) \<Rightarrow>
   (Tree \<Rightarrow> int \<Rightarrow> int) \<Rightarrow> int \<Rightarrow> 'p SerialTreeLearner \<Rightarrow> failure + Tree" where
  "Train env find_splits leaf_count n_leaves st =
     Train_loop env find_splits leaf_count (nat (n_leaves - 1)) 0 (-1) (new_Tree n_leaves) st"

subsection \<open>A small learner to run the definitions on\<close>

text \<open>
  Two leaves of four rows each, a pool that never has a leaf cached and hands out the
  array at the address of the leaf's index, and a search that finds gain 1 for the root
  and no gain afterwards.
\<close>

definition ex_env :: "Tree \<Rightarrow> nat Collaborators" where
  "ex_env t = \<lparr> max_depth = -1, min_num_data_one_leaf = 1, kMinScore = -1000,
               leaf_depth = (\<lambda>l. 0),
               GetGlobalDataCountInLeaf = (\<lambda>l. if l < 0 then 0 else 4),
               pool_Get = (\<lambda>p l. (False, nat l, p)),
               pool_Move = (\<lambda>p a b. p) \<rparr>"

definition ex_info :: "real \<Rightarrow> SplitInfo" where
  "ex_info g = \<lparr> feature = 0, threshold = 3, gain = g, left_count = 4, right_count = 4,
                 left_sum_gradient = 1, left_sum_hessian = 4, right_sum_gradient = -1,
                 right_sum_hessian = 4, left_output = -1/4, right_output = 1/4 \<rparr>"

definition ex_learner :: "nat SerialTreeLearner" where
  "ex_learner = \<lparr> num_features = 1, best_split_per_leaf = [ex_info (-1000), ex_info (-1000)],
                  histogram_pool = 0, histograms = (\<lambda>a. []),
                  parent_leaf_histogram_array = None, smaller_leaf_histogram_array = None,
                  larger_leaf_histogram_array = None,
                  smaller_leaf_splits = \<lparr> LeafIndex = 0, num_data_in_leaf = 8,
                                          leaf_sum_gradients = 0, leaf_sum_hessians = 8 \<rparr>,
                  larger_leaf_splits = None, is_feature_used = Some [True] \<rparr>"

definition ex_find_splits :: "Tree \<Rightarrow> nat SerialTreeLearner \<Rightarrow> nat SerialTreeLearner" where
  "ex_find_splits t s =
     s\<lparr>best_split_per_leaf :=
         map (\<lambda>b. b\<lparr>gain := (if nodes t = [] then 1 else 0)\<rparr>) (best_split_per_leaf s)\<rparr>"

subsection \<open>\<open>FindBestThresholds\<close>\<close>

text \<open>
  Modelled from the spec: \<open>feature_histogram.hpp\<close> is not among the sources.
  \<open>Construct\<close> builds the bins of one feature from the rows of a leaf ("accumulate
  \<open>(g, h, 1)\<close> at bin", with or without an ordered bin); the bins it computes for leaf
  \<open>l\<close> and feature \<open>f\<close> are the parameter \<open>leaf_histogram l f\<close>.  \<open>Subtract\<close> is the
  per-bin subtraction \<open>parent - smaller\<close> on the two sums and the count.
  \<open>FindBestThreshold\<close> scans the bins and leaves them as they are; the splittable flag
  it leaves behind is the parameter \<open>splittable_after\<close> of the bins.
\<close>

definition Construct :: "FeatureHistogram \<Rightarrow> HistogramBinEntry list \<Rightarrow> FeatureHistogram" where
  "Construct h from_data = h\<lparr>data := from_data\<rparr>"

definition Subtract_entry :: "HistogramBinEntry \<Rightarrow> HistogramBinEntry \<Rightarrow> HistogramBinEntry" where
  "Subtract_entry a b =
     \<lparr> sum_gradients = sum_gradients a - sum_gradients b,
       sum_hessians = sum_hessians a - sum_hessians b,
       cnt = cnt a - cnt b \<rparr>"

definition Subtract :: "FeatureHistogram \<Rightarrow> FeatureHistogram \<Rightarrow> FeatureHistogram" where
  "Subtract h other = h\<lparr>data := map2 Subtract_entry (data h) (data other)\<rparr>"

definition FindBestThreshold :: "(HistogramBinEntry list \<Rightarrow> bool) \<Rightarrow> FeatureHistogram \<Rightarrow> FeatureHistogram" where
  "FindBestThreshold splittable_after h = h\<lparr>is_splittable := splittable_after (data h)\<rparr>"

text \<open>The write \<open>array[f] := u (array[f])\<close> through the pointer \<open>a\<close>.\<close>

definition update_hist ::
  "(addr \<Rightarrow> FeatureHistogram list) \<Rightarrow> addr \<Rightarrow> nat \<Rightarrow> (FeatureHistogram \<Rightarrow> FeatureHistogram) \<Rightarrow>
   (addr \<Rightarrow> FeatureHistogram list)" where
  "update_hist H a f u = H(a := (H a)[f := u (H a ! f)])"

text \<open>
  The body of the loop of \<open>SerialTreeLearner::FindBestThresholds\<close> for the feature
  \<open>f\<close>.  The parent's array is read and the larger leaf's array is written through their
  own pointers, which \<open>BeforeFindBestSplit\<close> makes equal when the parent is cached.
\<close>

definition FindBestThresholds_feature ::
  "(int \<Rightarrow> nat \<Rightarrow> HistogramBinEntry list) \<Rightarrow> (HistogramBinEntry list \<Rightarrow> bool) \<Rightarrow> nat \<Rightarrow>
   'p SerialTreeLearner \<Rightarrow> failure + 'p SerialTreeLearner" where
  "FindBestThresholds_feature leaf_histogram splittable_after f st =
     (if (case is_feature_used st of None \<Rightarrow> False | Some used \<Rightarrow> \<not> used ! f) then Inr st
      else
      case smaller_leaf_histogram_array st of
        None \<Rightarrow> Inl (Undefined ''smaller_leaf_histogram_array_ is null'')
      | Some sa \<Rightarrow>
      if (case parent_leaf_histogram_array st of
            None \<Rightarrow> False
          | Some pa \<Rightarrow> \<not> is_splittable (histograms st pa ! f))
      then Inr (st\<lparr>histograms := update_hist (histograms st) sa f (\<lambda>h. h\<lparr>is_splittable := False\<rparr>)\<rparr>)
      else
      let H1 = update_hist (histograms st) sa f
                 (\<lambda>h. FindBestThreshold splittable_after
                        (Construct h (leaf_histogram (LeafIndex (smaller_leaf_splits st)) f)))
      in
      if (case larger_leaf_splits st of None \<Rightarrow> True | Some ls \<Rightarrow> LeafIndex ls < 0)
      then Inr (st\<lparr>histograms := H1\<rparr>)
      else
      case larger_leaf_histogram_array st of
        None \<Rightarrow> Inl (Undefined ''larger_leaf_histogram_array_ is null'')
      | Some la \<Rightarrow>
      let H2 = (if parent_leaf_histogram_array st \<noteq> None
                then update_hist H1 la f (\<lambda>h. Subtract h (H1 sa ! f))
                else update_hist H1 la f
                       (\<lambda>h. Construct h (leaf_histogram (LeafIndex (the (larger_leaf_splits st))) f)))
      in Inr (st\<lparr>histograms := update_hist H2 la f (FindBestThreshold splittable_after)\<rparr>))"

text \<open>The loop over the features (the iterations of the OpenMP loop write different
  entries; they are run in index order).\<close>

fun FindBestThresholds_loop ::
  "(int \<Rightarrow> nat \<Rightarrow> HistogramBinEntry list) \<Rightarrow> (HistogramBinEntry list \<Rightarrow> bool) \<Rightarrow> nat list \<Rightarrow>
   'p SerialTreeLearner \<Rightarrow> failure + 'p SerialTreeLearner" where
  "FindBestThresholds_loop leaf_histogram splittable_after [] st = Inr st"
| "FindBestThresholds_loop leaf_histogram splittable_after (f # fs) st =
     (case FindBestThresholds_feature leaf_histogram splittable_after f st of
        Inl e \<Rightarrow> Inl e
      | Inr st' \<Rightarrow> FindBestThresholds_loop leaf_histogram splittable_after fs st')"

definition FindBestThresholds ::
  "(int \<Rightarrow> nat \<Rightarrow> HistogramBinEntry list) \<Rightarrow> (HistogramBinEntry list \<Rightarrow> bool) \<Rightarrow>
   'p SerialTreeLearner \<Rightarrow> failure + 'p SerialTreeLearner" where
  "FindBestThresholds leaf_histogram splittable_after st =
     FindBestThresholds_loop leaf_histogram splittable_after [0..<num_features st] st"

text \<open>
  The subtraction identity as the specification words it, for the histograms before
  (\<open>st\<close>) and after (\<open>st'\<close>) \<open>FindBestThresholds\<close>: for every feature the parent's bins
  are the sums of the smaller and the larger child's bins, and the smaller child's bins
  are the ones built from its rows.
\<close>

definition Add_entry :: "HistogramBinEntry \<Rightarrow> HistogramBinEntry \<Rightarrow> HistogramBinEntry" where
  "Add_entry a b =
     \<lparr> sum_gradients = sum_gradients a + sum_gradients b,
       sum_hessians = sum_hessians a + sum_hessians b,
       cnt = cnt a + cnt b \<rparr>"

definition subtraction_identity_everywhere ::
  "(int \<Rightarrow> nat \<Rightarrow> HistogramBinEntry list) \<Rightarrow> 'p SerialTreeLearner \<Rightarrow> 'p SerialTreeLearner \<Rightarrow> bool" where
  "subtraction_identity_everywhere leaf_histogram st st' =
     (case (parent_leaf_histogram_array st, smaller_leaf_histogram_array st') of
        (Some pa, Some sa) \<Rightarrow>
          list_all (\<lambda>f. data (histograms st pa ! f) =
                          map2 Add_entry (data (histograms st' sa ! f)) (data (histograms st' pa ! f)) \<and>
                        data (histograms st' sa ! f) =
                          leaf_histogram (LeafIndex (smaller_leaf_splits st)) f)
                   [0..<num_features st]
      | _ \<Rightarrow> False)"

text \<open>
  A learner after a split with the parent's histograms cached at address 0 and handed to
  the larger leaf, and the smaller leaf's array at address 1 still holding the bins of
  an earlier leaf.  Feature 0 is in use, feature 1 is not sampled for this tree.
\<close>

definition bin_entry :: "real \<Rightarrow> real \<Rightarrow> 32 word \<Rightarrow> HistogramBinEntry" where
  "bin_entry g h c = \<lparr> sum_gradients = g, sum_hessians = h, cnt = c \<rparr>"

definition ex_leaf_histogram :: "int \<Rightarrow> nat \<Rightarrow> HistogramBinEntry list" where
  "ex_leaf_histogram l f = [bin_entry 1 2 2, bin_entry (-1) 1 1]"

definition ex_after_split :: "nat SerialTreeLearner" where
  "ex_after_split =
     \<lparr> num_features = 2, best_split_per_leaf = [ex_info 1, ex_info (-1000)],
       histogram_pool = 0,
       histograms = (\<lambda>a. if a = 0
                          then [\<lparr> data = [bin_entry 3 5 5, bin_entry (-2) 3 3], is_splittable = True \<rparr>,
                                \<lparr> data = [bin_entry 1 8 8], is_splittable = True \<rparr>]
                          else [\<lparr> data = [bin_entry 7 7 7, bin_entry 7 7 7], is_splittable = True \<rparr>,
                                \<lparr> data = [bin_entry 7 7 7], is_splittable = True \<rparr>]),
       parent_leaf_histogram_array = Some 0, smaller_leaf_histogram_array = Some 1,
       larger_leaf_histogram_array = Some 0,
       smaller_leaf_splits = \<lparr> LeafIndex = 1, num_data_in_leaf = 3,
                               leaf_sum_gradients = 0, leaf_sum_hessians = 3 \<rparr>,
       larger_leaf_splits = Some \<lparr> LeafIndex = 0, num_data_in_leaf = 5,
                                   leaf_sum_gradients = 1, leaf_sum_hessians = 5 \<rparr>,
       is_feature_used = Some [True, False] \<rparr>"

section \<open>\<open>Dataset\<close>: sampling whole queries for one worker\<close>

text \<open>
  The variables the filter of \<open>LoadDataToMemory\<close>, \<open>SampleDataFromFile\<close> and
  \<open>LoadDataFromBinFile\<close> keeps between rows: \<open>qid\<close>, \<open>is_query_used\<close>, and how many
  numbers have been drawn from \<open>random_\<close>.  \<open>NextInt n\<close> is the \<open>n\<close>-th value that
  \<open>random_.NextInt(0, num_machines)\<close> returns.
\<close>

record QuerySampler =
  qid :: int
  is_query_used :: bool
  drawn :: nat

definition QuerySampler_init :: QuerySampler where
  "QuerySampler_init = \<lparr> qid = -1, is_query_used = False, drawn = 0 \<rparr>"

text \<open>The body of the filter for one row: fatal once \<open>qid\<close> has reached \<open>num_queries\<close>,
  a new draw when the row is at or past the next boundary.\<close>

definition query_filter ::
  "(nat \<Rightarrow> int) \<Rightarrow> int \<Rightarrow> int list \<Rightarrow> int \<Rightarrow> int \<Rightarrow> QuerySampler \<Rightarrow> failure + bool \<times> QuerySampler" where
  "query_filter NextInt rnk query_boundaries n_queries line_idx s =
     (if qid s \<ge> n_queries
      then Inl (Fatal ''Current query is exceed the range of query file'')
      else if \<not> (0 \<le> qid s + 1 \<and> nat (qid s + 1) < length query_boundaries)
      then Inl (Undefined ''query_boundaries[qid + 1]'')
      else if line_idx \<ge> query_boundaries ! nat (qid s + 1)
      then (let used = (NextInt (drawn s) = rnk)
            in Inr (used, \<lparr> qid = qid s + 1, is_query_used = used, drawn = Suc (drawn s) \<rparr>))
      else Inr (is_query_used s, s))"

text \<open>
  The loop over the rows, as \<open>LoadDataFromBinFile\<close> writes it (\<open>ReadAndFilterLines\<close> and
  \<open>SampleAndFilterFromFile\<close> of the text reader call the same filter on the line indices
  in order): the indices of the rows that the filter accepts are appended to
  \<open>used_data_indices_\<close>.
\<close>

fun sample_rows ::
  "(nat \<Rightarrow> int) \<Rightarrow> int \<Rightarrow> int list \<Rightarrow> int \<Rightarrow> int list \<Rightarrow> QuerySampler \<Rightarrow> int list \<Rightarrow> failure + int list" where
  "sample_rows NextInt rnk query_boundaries n_queries [] s used = Inr used"
| "sample_rows NextInt rnk query_boundaries n_queries (i # rows) s used =
     (case query_filter NextInt rnk query_boundaries n_queries i s of
        Inl e \<Rightarrow> Inl e
      | Inr (keep, s') \<Rightarrow>
          sample_rows NextInt rnk query_boundaries n_queries rows s'
            (if keep then used @ [i] else used))"

definition used_data_indices_by_query ::
  "(nat \<Rightarrow> int) \<Rightarrow> int \<Rightarrow> int list \<Rightarrow> int \<Rightarrow> nat \<Rightarrow> failure + int list" where
  "used_data_indices_by_query NextInt rnk query_boundaries n_queries n_data =
     sample_rows NextInt rnk query_boundaries n_queries (map int [0..<n_data]) QuerySampler_init []"

text \<open>
  The query a row belongs to, read off the boundaries: the number of boundaries at or
  before the row, less one.
\<close>

definition query_index :: "int list \<Rightarrow> int \<Rightarrow> int" where
  "query_index query_boundaries i = int (length (filter (\<lambda>b. b \<le> i) query_boundaries)) - 1"

section \<open>\<open>Dataset\<close>: the header of the binary file\<close>

text \<open>
  The file is a list of bytes.  \<open>fwrite\<close> of an integer writes its bytes, \<open>fread\<close> and the
  \<open>reinterpret_cast\<close> reads put them together again, least significant byte first on
  the little-endian targets of the specification; \<open>size_t\<close> has 8 bytes, \<open>int\<close> and
  \<open>data_size_t\<close> have 4, \<open>bool\<close> and \<open>char\<close> have 1.
\<close>

type_synonym byte = "8 word"

fun le_bytes :: "nat \<Rightarrow> nat \<Rightarrow> byte list" where
  "le_bytes 0 v = []"
| "le_bytes (Suc n) v = of_nat (v mod 256) # le_bytes n (v div 256)"

fun le_value :: "byte list \<Rightarrow> nat" where
  "le_value [] = 0"
| "le_value (b # bs) = unat b + 256 * le_value bs"

definition bytes_of_size_t :: "64 word \<Rightarrow> byte list" where
  "bytes_of_size_t w = le_bytes 8 (unat w)"

definition bytes_of_int :: "32 word \<Rightarrow> byte list" where
  "bytes_of_int w = le_bytes 4 (unat w)"

definition bytes_of_bool :: "bool \<Rightarrow> byte list" where
  "bytes_of_bool b = [if b then 1 else 0]"

definition byte_of_char :: "char \<Rightarrow> byte" where
  "byte_of_char c = of_nat (of_char c)"

definition char_of_byte :: "byte \<Rightarrow> char" where
  "char_of_byte b = char_of (unat b)"

text \<open>
  The members of \<open>Dataset\<close> that the header stores.  They carry the prefix \<open>h\<close> because
  record fields share one name space with the fields of the learner and of the column
  options above.
\<close>

record DatasetHeader =
  h_global_num_data :: "64 word"
  h_is_enable_sparse :: bool
  h_max_bin :: "32 word"
  h_num_data :: "32 word"
  h_num_features :: "32 word"
  h_num_total_features :: "32 word"
  h_used_feature_map :: "32 word list"
  h_feature_names :: "string list"

text \<open>The loop bound \<open>i < num_total_features_\<close> of a signed \<open>int\<close> counted from 0.\<close>

definition loop_count :: "32 word \<Rightarrow> nat" where
  "loop_count n = nat (sint n)"

text \<open>\<open>size_of_header\<close> as \<open>SaveBinaryFile\<close> computes it, in \<open>size_t\<close> arithmetic.\<close>

definition size_of_header :: "DatasetHeader \<Rightarrow> 64 word" where
  "size_of_header d =
     foldl (\<lambda>acc i. acc + of_nat (length (h_feature_names d ! i)) + 4)
           (8 + 1 + 4 + 4 + 4 + 4 + 8 + 4 * of_nat (length (h_used_feature_map d)))
           [0..<loop_count (h_num_total_features d)]"

text \<open>One feature name: its length as an \<open>int\<close>, then that many characters.\<close>

definition name_bytes :: "string \<Rightarrow> failure + byte list" where
  "name_bytes name =
     (let str_len = (of_nat (length name) :: 32 word) in
      if sint str_len < 0 then Inl (Undefined ''fwrite with a negative length'')
      else Inr (bytes_of_int str_len @ map byte_of_char (take (nat (sint str_len)) name)))"

fun names_bytes :: "string list \<Rightarrow> failure + byte list" where
  "names_bytes [] = Inr []"
| "names_bytes (n # ns) =
     (case name_bytes n of
        Inl e \<Rightarrow> Inl e
      | Inr b \<Rightarrow> (case names_bytes ns of Inl e \<Rightarrow> Inl e | Inr bs \<Rightarrow> Inr (b @ bs)))"

text \<open>The bytes written after \<open>size_of_header\<close>, up to the feature names.\<close>

definition header_bytes :: "DatasetHeader \<Rightarrow> failure + byte list" where
  "header_bytes d =
     (if loop_count (h_num_total_features d) > length (h_feature_names d)
      then Inl (Undefined ''feature_names_[i]'')
      else case names_bytes (take (loop_count (h_num_total_features d)) (h_feature_names d)) of
        Inl e \<Rightarrow> Inl e
      | Inr names \<Rightarrow>
          Inr (bytes_of_size_t (h_global_num_data d) @ bytes_of_bool (h_is_enable_sparse d) @
               bytes_of_int (h_max_bin d) @ bytes_of_int (h_num_data d) @
               bytes_of_int (h_num_features d) @ bytes_of_int (h_num_total_features d) @
               bytes_of_size_t (of_nat (length (h_used_feature_map d))) @
               concat (map bytes_of_int (h_used_feature_map d)) @ names))"

text \<open>
  Modelled from the spec: \<open>Metadata\<close> and \<open>Feature\<close> are not among the sources.  The
  metadata and each feature are written as a blob after a \<open>size_t\<close> that holds its size
  ("\<open>u64 size_of_metadata\<close>, metadata blob", "\<open>u64 size_of_feature\<close>, feature blob");
  the blobs are the parameters \<open>metadata\<close> and \<open>features\<close>, a list of bytes each.
\<close>

definition blob_bytes :: "byte list \<Rightarrow> byte list" where
  "blob_bytes b = bytes_of_size_t (of_nat (length b)) @ b"

text \<open>
  \<open>Dataset::SaveBinaryFile\<close>: nothing is written for a dataset that was itself loaded
  from a binary file; otherwise the declared size, the header, the metadata and the first
  \<open>num_features\<close> features.
\<close>

definition SaveBinaryFile ::
  "bool \<Rightarrow> DatasetHeader \<Rightarrow> byte list \<Rightarrow> byte list list \<Rightarrow> failure + byte list option" where
  "SaveBinaryFile is_loading_from_binfile d metadata features =
     (if is_loading_from_binfile then Inr None
      else case header_bytes d of
             Inl e \<Rightarrow> Inl e
           | Inr hb \<Rightarrow>
               if loop_count (h_num_features d) > length features
               then Inl (Undefined ''features_[i]'')
               else Inr (Some (bytes_of_size_t (size_of_header d) @ hb @ blob_bytes metadata @
                               concat (map blob_bytes (take (loop_count (h_num_features d)) features)))))"

text \<open>
  Reading from the buffer: a reader takes the bytes that are left and returns a value and
  the bytes after it.  A read past the bytes of the header is not defined by the file.
\<close>

type_synonym 'a reader = "byte list \<Rightarrow> failure + 'a \<times> byte list"

definition read_then :: "'a reader \<Rightarrow> ('a \<Rightarrow> 'b reader) \<Rightarrow> 'b reader" where
  "read_then p f bs = (case p bs of Inl e \<Rightarrow> Inl e | Inr (x, r) \<Rightarrow> f x r)"

definition read_done :: "'a \<Rightarrow> 'a reader" where
  "read_done x bs = Inr (x, bs)"

definition read_raw :: "nat \<Rightarrow> byte list reader" where
  "read_raw n bs =
     (if length bs < n then Inl (Undefined ''read past the header'')
      else Inr (take n bs, drop n bs))"

definition read_size_t :: "64 word reader" where
  "read_size_t = read_then (read_raw 8) (\<lambda>b. read_done (of_nat (le_value b)))"

definition read_int :: "32 word reader" where
  "read_int = read_then (read_raw 4) (\<lambda>b. read_done (of_nat (le_value b)))"

definition read_bool :: "bool reader" where
  "read_bool = read_then (read_raw 1) (\<lambda>b. read_done (b \<noteq> [0]))"

fun read_ints :: "nat \<Rightarrow> 32 word list reader" where
  "read_ints 0 = read_done []"
| "read_ints (Suc n) = read_then read_int (\<lambda>x. read_then (read_ints n) (\<lambda>xs. read_done (x # xs)))"

definition read_name :: "string reader" where
  "read_name = read_then read_int (\<lambda>str_len.
                 read_then (read_raw (nat (sint str_len))) (\<lambda>b. read_done (map char_of_byte b)))"

fun read_names :: "nat \<Rightarrow> string list reader" where
  "read_names 0 = read_done []"
| "read_names (Suc n) = read_then read_name (\<lambda>x. read_then (read_names n) (\<lambda>xs. read_done (x # xs)))"

text \<open>The header fields in the order in which \<open>LoadDataFromBinFile\<close> reads them.\<close>

definition read_header :: "DatasetHeader reader" where
  "read_header =
     read_then read_size_t (\<lambda>g.
     read_then read_bool (\<lambda>sparse.
     read_then read_int (\<lambda>mb.
     read_then read_int (\<lambda>nd.
     read_then read_int (\<lambda>nf.
     read_then read_int (\<lambda>ntf.
     read_then read_size_t (\<lambda>num_used_feature_map.
     read_then (read_ints (unat num_used_feature_map)) (\<lambda>used.
     read_then (read_names (loop_count ntf)) (\<lambda>names.
     read_done \<lparr> h_global_num_data = g, h_is_enable_sparse = sparse, h_max_bin = mb,
                 h_num_data = nd, h_num_features = nf, h_num_total_features = ntf,
                 h_used_feature_map = used, h_feature_names = names \<rparr>)))))))))"

text \<open>
  \<open>fread\<close> of \<open>n\<close> bytes from the file; the loader is fatal with its message when the
  file has fewer.  Each feature is read as a size and a blob.
\<close>

definition fread :: "string \<Rightarrow> nat \<Rightarrow> byte list reader" where
  "fread message n bs =
     (if length bs < n then Inl (Fatal message) else Inr (take n bs, drop n bs))"

definition fread_blob :: "string \<Rightarrow> string \<Rightarrow> byte list reader" where
  "fread_blob size_message blob_message =
     read_then (fread size_message 8) (\<lambda>b. fread blob_message (le_value b))"

fun fread_features :: "nat \<Rightarrow> byte list list reader" where
  "fread_features 0 = read_done []"
| "fread_features (Suc n) =
     read_then (fread_blob ''Binary file format error at feature size''
                           ''Binary file format error at feature loading'')
       (\<lambda>x. read_then (fread_features n) (\<lambda>xs. read_done (x # xs)))"

record LoadedDataset =
  header :: DatasetHeader
  metadata_blob :: "byte list"
  feature_blobs :: "byte list list"
  used_data_indices :: "int list"

text \<open>
  \<open>Dataset::LoadDataFromBinFile\<close>: the declared size is read, then that many bytes,
  from which the header fields are taken; the metadata is read; \<open>global_num_data_\<close> is
  overwritten with \<open>num_data_\<close>.  With more than one machine and no pre-partition the rows
  are sampled, by query when the metadata has query boundaries (\<open>queries_of\<close> gives the
  boundaries and the number of queries that the metadata blob holds), and \<open>num_data_\<close>
  becomes the number of rows kept.  Then \<open>num_features_\<close> features are read.
\<close>

definition LoadDataFromBinFile ::
  "(nat \<Rightarrow> int) \<Rightarrow> (byte list \<Rightarrow> (int list \<times> int) option) \<Rightarrow> byte list \<Rightarrow> int \<Rightarrow> int \<Rightarrow> bool \<Rightarrow>
   failure + LoadedDataset" where
  "LoadDataFromBinFile NextInt queries_of file rnk n_machines is_pre_partition =
     (case fread_blob ''Binary file format error at header size''
                      ''Binary file format error at header'' file of
        Inl e \<Rightarrow> Inl e
      | Inr (buffer, file1) \<Rightarrow>
      case read_header buffer of
        Inl e \<Rightarrow> Inl e
      | Inr (d, unread) \<Rightarrow>
      case fread_blob ''Binary file format error: wrong size of meta data''
                      ''Binary file format error: wrong size of meta data'' file1 of
        Inl e \<Rightarrow> Inl e
      | Inr (metadata, file2) \<Rightarrow>
      let d = d\<lparr>h_global_num_data := of_int (sint (h_num_data d))\<rparr> in
      case (if n_machines > 1 \<and> \<not> is_pre_partition then
              (case (case queries_of metadata of
                       None \<Rightarrow> Inr (filter (\<lambda>i. NextInt (nat i) = rnk)
                                           (map int [0..<loop_count (h_num_data d)]))
                     | Some (qb, n_queries) \<Rightarrow>
                         used_data_indices_by_query NextInt rnk qb n_queries
                           (loop_count (h_num_data d))) of
                 Inl e \<Rightarrow> Inl e
               | Inr used \<Rightarrow> Inr (d\<lparr>h_num_data := of_nat (length used)\<rparr>, used))
            else Inr (d, [])) of
        Inl e \<Rightarrow> Inl e
      | Inr (d, used) \<Rightarrow>
      case fread_features (loop_count (h_num_features d)) file2 of
        Inl e \<Rightarrow> Inl e
      | Inr (features, file3) \<Rightarrow>
          Inr \<lparr> header = d, metadata_blob = metadata, feature_blobs = features,
                used_data_indices = used \<rparr>)"

text \<open>The number of header bytes that \<open>SaveBinaryFile\<close> writes, as a natural number.\<close>

definition header_length :: "DatasetHeader \<Rightarrow> nat" where
  "header_length d =
     33 + 4 * length (h_used_feature_map d) +
     sum_list (map (\<lambda>n. length n + 4)
                (take (loop_count (h_num_total_features d)) (h_feature_names d)))"

text \<open>
  The round trip as the specification words it: the file saved for \<open>d\<close>, loaded on a
  single machine, gives \<open>d\<close> back.
\<close>

definition header_restored :: "DatasetHeader \<Rightarrow> byte list \<Rightarrow> byte list list \<Rightarrow> bool" where
  "header_restored d metadata features =
     (case SaveBinaryFile False d metadata features of
        Inr (Some file) \<Rightarrow>
          (case LoadDataFromBinFile (\<lambda>n. 0) (\<lambda>m. None) file 0 1 False of
             Inr loaded \<Rightarrow> header loaded = d
           | Inl e \<Rightarrow> False)
      | _ \<Rightarrow> False)"

text \<open>The header of a worker's share of a partitioned data set: 5 rows of 10.\<close>

definition ex_header :: DatasetHeader where
  "ex_header = \<lparr> h_global_num_data = 10, h_is_enable_sparse = True, h_max_bin = 255,
                 h_num_data = 5, h_num_features = 1, h_num_total_features = 2,
                 h_used_feature_map = [0, -1],
                 h_feature_names = [''Column_0'', ''Column_1''] \<rparr>"

definition ex_metadata :: "byte list" where
  "ex_metadata = [1, 2, 3]"

definition ex_features :: "byte list list" where
  "ex_features = [[4, 5]]"

section \<open>Theorems\<close>

lemma AtoiAndCheck_0: "AtoiAndCheck ''0'' = Some 0"
  by (simp add: AtoiAndCheck_def Atoi_def is_digit_def digit_value_def)

lemma AtoiAndCheck_1: "AtoiAndCheck ''1'' = Some 1"
  by (simp add: AtoiAndCheck_def Atoi_def is_digit_def digit_value_def)

lemma Dataset_columns_query_column:
  "Dataset_columns 0 (-1) (-1) cfg_query_column [] =
     Inr \<lparr> feature_names = [], label_idx = 0, weight_idx = -1, group_idx = 0,
           ignore_features = {0} \<rparr>"
  by (simp add: Dataset_columns_def cfg_query_column_def resolve_column_def StartsWith_def
      name_prefix_def AtoiAndCheck_0 AtoiAndCheck_1)

text \<open>
  C6.  The claim: with more than one machine, no pre-partition and a query column
  configured in the data file, \<open>LoadTrainData\<close> is fatal whatever index the column resolved
  to.  The code tests \<open>group_idx_ > 0\<close>: with the label in column 0 and the query id in
  column 1 the query column resolves to index 0 (indices after the label move down by one),
  and the guard lets the call through.
\<close>

theorem C6_query_column_zero_not_rejected:
  "group_column cfg_query_column \<noteq> [] \<and>
   Dataset_then_LoadTrainData 0 (-1) (-1) cfg_query_column [] 2 False =
     Inr \<lparr> feature_names = [], label_idx = 0, weight_idx = -1, group_idx = 0,
           ignore_features = {0} \<rparr>"
proof
  show "group_column cfg_query_column \<noteq> []"
    by (simp add: cfg_query_column_def)
  show "Dataset_then_LoadTrainData 0 (-1) (-1) cfg_query_column [] 2 False =
     Inr \<lparr> feature_names = [], label_idx = 0, weight_idx = -1, group_idx = 0,
           ignore_features = {0} \<rparr>"
    by (simp add: Dataset_then_LoadTrainData_def Dataset_columns_query_column
        LoadTrainData_guard_def)
qed

lemma Atoi_12400: "Atoi ''12400'' = (12400, [])"
  by (simp add: Atoi_def is_digit_def digit_value_def)

lemma Atoi_1: "Atoi ''1'' = (1, [])"
  by (simp add: Atoi_def is_digit_def digit_value_def)

text \<open>
  C7.  The claim: a line \<open>rank=N\<close> sets the rank, a line \<open>ip port\<close> adds a machine, every
  other line is skipped without effect.  The code recognises a rank line with
  \<open>find_first_of("rank=")\<close>, which finds any of the five characters: the line \<open>id=1\<close>
  between two machine lines sets the rank to 1, and the machine line \<open>node1 12400\<close> is
  taken for a rank line and read past the end of its split.
\<close>

theorem C7_other_line_sets_rank:
  "ParseMachineList [''10.0.0.1 12400'', ''id=1'', ''10.0.0.2 12400''] (Linkers_init 2) =
     Inr \<lparr> rank = 1, num_machines = 2, client_ips = [''10.0.0.1'', ''10.0.0.2''],
           client_ports = [12400, 12400], warnings = [] \<rparr> \<and>
   ParseMachineList [''node1 12400''] (Linkers_init 1) = Inl (Undefined ''str_after_split[1]'')"
  by (simp add: ParseMachineList_def Linkers_init_def find_first_of_found_def Trim_def
      is_space_def Split_def Atoi_12400 Atoi_1 size_t_of_int_def)


lemma connect_loop_first_success:
  "j < k \<Longrightarrow> \<forall>m < j. \<not> Connect (i + m) \<Longrightarrow> Connect (i + j) \<Longrightarrow>
   connect_loop Connect i k = (True, Suc j, replicate j connect_fail_delay_time)"
proof (induction k arbitrary: i j)
  case 0
  then show ?case by simp
next
  case (Suc k)
  show ?case
  proof (cases j)
    case 0
    then show ?thesis using Suc.prems by simp
  next
    case (Suc j')
    have "\<not> Connect i" using Suc.prems(2) Suc by force
    moreover have "j' < k" "\<forall>m < j'. \<not> Connect (Suc i + m)" "Connect (Suc i + j')"
      using Suc.prems Suc by force+
    ultimately show ?thesis using Suc.IH [of j' "Suc i"] Suc by simp
  qed
qed

text \<open>
  When the \<open>j\<close>-th call is the first that connects, the block has made \<open>j + 1\<close> calls
  and \<open>j\<close> sleeps, sends the rank and stores a connected socket.
\<close>

lemma connect_to_rank_connected:
  assumes "j < connect_fail_retry_cnt" and "\<forall>m < j. \<not> Connect m" and "Connect j"
  shows "connect_to_rank TcpSocket_Send Connect =
           \<lparr> connect_calls = Suc j, slept_ms = replicate j connect_fail_delay_time,
             linker = Inr True \<rparr>"
  using connect_loop_first_success [of j connect_fail_retry_cnt Connect 0] assms
  by (simp add: connect_to_rank_def TcpSocket_Send_def)



text \<open>
  C10.  The claim: with query weights, a query without a positively labelled document
  adds 1.0 times its weight.  The weighted branch adds 1.0 without the weight: for one
  such query of weight 2 evaluated at position 1 the result is 1/2, where the claim (and the
  comment "let its NDCG=1") gives 2/2 = 1.
\<close>

theorem C10_weighted_negative_query_unweighted:
  "NDCG_Eval (NDCG_Init [1] 1 1 (Some [2]) (\<lambda>i j. 0)) (\<lambda>i. 0) (\<lambda>i j. 0) = Inr [1 / 2]"
  by (simp add: NDCG_Eval_def NDCG_Init_def NDCG_query_terms_def)

text \<open>
  C3 as stated fails: with \<open>num_leaves = 1\<close> the clamp to at least 2 is undone by the
  clamp to at most \<open>num_leaves\<close>, which comes last, and the capacity is 1.
\<close>

theorem C3_capacity_below_two_counterexample:
  "\<not> capacity_in_range (-1) 1 24 [255]"
  by (simp add: capacity_in_range_def Init_max_cache_size_def)

text \<open>
  C3, amended.  Whenever the quotient is defined (the pool size is negative, or the total
  histogram size is not zero and the quotient fits an \<open>int\<close>), \<open>Init\<close> computes a capacity
  \<open>K\<close> with \<open>K \<le> num_leaves\<close>, and with \<open>K \<ge> 2\<close> as soon as \<open>num_leaves \<ge> 2\<close>; for a
  negative pool size \<open>K = num_leaves\<close>; otherwise \<open>K\<close> is the budget
  \<open>histogram_pool_size * 1024 * 1024\<close> divided by the total histogram size, rounded down
  and clamped to at least 2, then to at most \<open>num_leaves\<close>.
\<close>

theorem C3_capacity:
  assumes "hps < 0 \<or> (total_histogram_size sz bins \<noteq> 0 \<and>
             hps * 1024 * 1024 / real (total_histogram_size sz bins) < 2 ^ 31)"
  shows "\<exists>K. Init_max_cache_size hps nl sz bins = Inr K \<and> K \<le> nl \<and> (2 \<le> nl \<longrightarrow> 2 \<le> K) \<and>
             (hps < 0 \<longrightarrow> K = nl) \<and>
             (0 \<le> hps \<longrightarrow>
                K = min (max 2 \<lfloor>hps * 1024 * 1024 / real (total_histogram_size sz bins)\<rfloor>) nl)"
  using assms by (auto simp: Init_max_cache_size_def)

theorem C3_capacity_witness:
  "((1::real) < 0 \<or> (total_histogram_size 24 [255, 255] \<noteq> 0 \<and>
       1 * 1024 * 1024 / real (total_histogram_size 24 [255, 255]) < 2 ^ 31)) \<and>
   Init_max_cache_size 1 127 24 [255, 255] = Inr 85"
proof -
  have t: "total_histogram_size 24 [255, 255] = 12240"
    by (simp add: total_histogram_size_def)
  have h: "(1::real) < 0 \<or> (total_histogram_size 24 [255, 255] \<noteq> 0 \<and>
       1 * 1024 * 1024 / real (total_histogram_size 24 [255, 255]) < 2 ^ 31)"
    by (simp add: t)
  from C3_capacity [OF h, of 127] show ?thesis
    using h by (simp add: t)
qed

text \<open>
  C9.  When the two children of a split have equal row counts, the right (new) leaf is
  the smaller leaf and the left leaf the larger one, both where \<open>Split\<close> initialises the
  children's \<open>LeafSplits\<close> and where \<open>BeforeFindBestSplit\<close> assigns the histogram arrays:
  there the larger leaf gets the array that the pool returns for the left leaf, the smaller
  leaf the one it returns next for the right leaf.
\<close>

theorem C9_equal_counts_right_is_smaller:
  assumes "left_count info = right_count info"
      and "GetGlobalDataCountInLeaf env left_leaf = GetGlobalDataCountInLeaf env right_leaf"
      and "0 \<le> right_leaf"
      and "BeforeFindBestSplit env left_leaf right_leaf st = (True, smaller_leaf, larger_leaf, st')"
  shows "LeafIndex (fst (Split_leaf_splits info leaf_count left_leaf right_leaf)) = right_leaf \<and>
         LeafIndex (snd (Split_leaf_splits info leaf_count left_leaf right_leaf)) = left_leaf \<and>
         smaller_leaf = right_leaf \<and> larger_leaf = left_leaf \<and>
         larger_leaf_histogram_array st' = Some (fst (snd (pool_Get env (histogram_pool st) left_leaf))) \<and>
         smaller_leaf_histogram_array st' =
           Some (fst (snd (pool_Get env (snd (snd (pool_Get env (histogram_pool st) left_leaf))) right_leaf)))"
proof -
  have "LeafIndex (fst (Split_leaf_splits info leaf_count left_leaf right_leaf)) = right_leaf"
       "LeafIndex (snd (Split_leaf_splits info leaf_count left_leaf right_leaf)) = left_leaf"
    using assms(1) by (simp_all add: Split_leaf_splits_def LeafSplits_Init_def)
  moreover have "smaller_leaf = right_leaf \<and> larger_leaf = left_leaf \<and>
         larger_leaf_histogram_array st' = Some (fst (snd (pool_Get env (histogram_pool st) left_leaf))) \<and>
         smaller_leaf_histogram_array st' =
           Some (fst (snd (pool_Get env (snd (snd (pool_Get env (histogram_pool st) left_leaf))) right_leaf)))"
    using assms(2,3,4)
    by (auto simp: BeforeFindBestSplit_def Let_def split: if_splits prod.splits)
  ultimately show ?thesis by simp
qed

lemma ArgMax_gain_step:
  "am < n \<Longrightarrow> set is \<subseteq> {..<n} \<Longrightarrow>
   foldl (\<lambda>am i. if gain (bs ! i) > gain (bs ! am) then i else am) am is < n"
  by (induction "is" arbitrary: am) auto

lemma ArgMax_gain_less: "bs \<noteq> [] \<Longrightarrow> ArgMax_gain bs < length bs"
  unfolding ArgMax_gain_def by (rule ArgMax_gain_step) auto

lemma ArgMax_gain_fold_greatest:
  "\<forall>j \<in> S. gain (bs ! j) \<le> gain (bs ! am) \<Longrightarrow>
   \<forall>j \<in> S \<union> set is.
     gain (bs ! j) \<le> gain (bs ! foldl (\<lambda>am i. if gain (bs ! i) > gain (bs ! am) then i else am) am is)"
proof (induction "is" arbitrary: am S)
  case Nil
  then show ?case by simp
next
  case (Cons i "is")
  let ?am = "if gain (bs ! i) > gain (bs ! am) then i else am"
  have "\<forall>j \<in> insert i S. gain (bs ! j) \<le> gain (bs ! ?am)"
    using Cons.prems by auto
  from Cons.IH [OF this] show ?case by simp
qed

text \<open>The leaf that \<open>Train\<close> picks has the greatest gain of all entries.\<close>

lemma ArgMax_gain_greatest:
  assumes "j < length bs"
  shows "gain (bs ! j) \<le> gain (bs ! ArgMax_gain bs)"
proof -
  have "\<forall>j \<in> {0}. gain (bs ! j) \<le> gain (bs ! 0)" by simp
  from ArgMax_gain_fold_greatest [OF this, of "[1..<length bs]"]
  have "\<forall>j \<in> {0} \<union> set [1..<length bs]. gain (bs ! j) \<le> gain (bs ! ArgMax_gain bs)"
    by (simp add: ArgMax_gain_def)
  moreover have "j \<in> {0} \<union> set [1..<length bs]"
    using assms by auto
  ultimately show ?thesis by blast
qed

lemma length_mark_unsplittable [simp]:
  "length (mark_unsplittable env l r bs) = length bs"
  by (simp add: mark_unsplittable_def Let_def)

lemma length_BeforeFindBestSplit:
  "BeforeFindBestSplit env l r st = (ok, sm, lg, st') \<Longrightarrow>
   length (best_split_per_leaf st') = length (best_split_per_leaf st)"
  by (auto simp: BeforeFindBestSplit_def Let_def split: if_splits prod.splits)

lemma length_search_phase:
  assumes "\<And>t s. length (best_split_per_leaf (find_splits t s)) = length (best_split_per_leaf s)"
  shows "length (best_split_per_leaf (search_phase env find_splits l r tree st)) = length (best_split_per_leaf st)"
proof -
  obtain ok sm lg st' where b: "BeforeFindBestSplit (env tree) l r st = (ok, sm, lg, st')"
    by (metis prod_cases4)
  then show ?thesis
    using assms length_BeforeFindBestSplit [OF b] by (simp add: search_phase_def)
qed

lemma learner_Split_facts:
  assumes "learner_Split leaf_count best_leaf tree st = (l', r', tree', st')"
  shows "best_split_per_leaf st' = best_split_per_leaf st"
    and "nodes tree' = nodes tree @ [last (nodes tree')]"
    and "split_gain (last (nodes tree')) = gain (best_split_per_leaf st ! best_leaf)"
  using assms
  by (auto simp: learner_Split_def Tree_Split_def Let_def split: prod.splits)

lemma Train_loop_invariant:
  assumes len: "\<And>t s. length (best_split_per_leaf (find_splits t s)) = length (best_split_per_leaf s)"
      and "best_split_per_leaf st \<noteq> []"
      and "\<forall>n \<in> set (nodes tree). 0 < split_gain n"
  shows "\<exists>tree'. Train_loop env find_splits leaf_count k l r tree st = Inr tree' \<and>
           length (nodes tree') \<le> length (nodes tree) + k \<and>
           (\<forall>n \<in> set (nodes tree'). 0 < split_gain n)"
  using assms(2,3)
proof (induction k arbitrary: l r tree st)
  case 0
  then show ?case by simp
next
  case (Suc k)
  define st1 where "st1 = search_phase env find_splits l r tree st"
  define best where "best = ArgMax_gain (best_split_per_leaf st1)"
  have ne: "best_split_per_leaf st1 \<noteq> []"
    using length_search_phase [of find_splits env l r tree st, OF len] Suc.prems(1)
    by (auto simp: st1_def)
  then have lt: "best < length (best_split_per_leaf st1)"
    by (simp add: best_def ArgMax_gain_less)
  show ?case
  proof (cases "gain (best_split_per_leaf st1 ! best) \<le> 0")
    case True
    then have "Train_loop env find_splits leaf_count (Suc k) l r tree st = Inr tree"
      using lt by (simp add: Let_def st1_def [symmetric] best_def [symmetric])
    then show ?thesis using Suc.prems(2) by simp
  next
    case False
    obtain l' r' tree' st2 where sp: "learner_Split leaf_count best tree st1 = (l', r', tree', st2)"
      by (metis prod_cases4)
    note f = learner_Split_facts [OF sp]
    have ne2: "best_split_per_leaf st2 \<noteq> []" using ne f(1) by simp
    have pos2: "\<forall>n \<in> set (nodes tree'). 0 < split_gain n"
    proof
      fix n assume "n \<in> set (nodes tree')"
      then have "n \<in> set (nodes tree) \<or> n = last (nodes tree')"
        using f(2) by (metis Un_iff empty_iff empty_set set_ConsD set_append)
      then show "0 < split_gain n"
        using Suc.prems(2) f(3) False by auto
    qed
    from Suc.IH [OF ne2 pos2, of l' r'] obtain t'' where
      t: "Train_loop env find_splits leaf_count k l' r' tree' st2 = Inr t''"
         "length (nodes t'') \<le> length (nodes tree') + k"
         "\<forall>n \<in> set (nodes t''). 0 < split_gain n"
      by blast
    have step: "Train_loop env find_splits leaf_count (Suc k) l r tree st = Inr t''"
      using lt False sp t(1)
      by (simp add: Let_def st1_def [symmetric] best_def [symmetric])
    have "length (nodes tree') = Suc (length (nodes tree))"
      using f(2) by (metis length_append_singleton)
    then show ?thesis using step t(2,3) by auto
  qed
qed

text \<open>
  C2.  For a learner whose \<open>best_split_per_leaf_\<close> has its \<open>num_leaves \<ge> 1\<close> entries, and
  whatever the search for thresholds does to the learner (it keeps the number of
  entries), \<open>Train\<close> returns a tree; the tree has at most \<open>num_leaves\<close> leaves; every split
  applied to it has a positive gain; and an iteration whose best gain is not positive
  returns the tree as it is.
\<close>

theorem C2_train_bounded_and_positive_gain:
  assumes "\<And>t s. length (best_split_per_leaf (find_splits t s)) = length (best_split_per_leaf s)"
      and "1 \<le> n_leaves"
      and "length (best_split_per_leaf st) = nat n_leaves"
  shows "(\<exists>tree. Train env find_splits leaf_count n_leaves st = Inr tree \<and>
            Tree_num_leaves tree \<le> n_leaves \<and>
            (\<forall>n \<in> set (nodes tree). 0 < split_gain n)) \<and>
         (\<forall>k l r tree s.
            gain (best_split_per_leaf (search_phase env find_splits l r tree s)
                    ! ArgMax_gain (best_split_per_leaf (search_phase env find_splits l r tree s))) \<le> 0 \<and>
            best_split_per_leaf s \<noteq> [] \<longrightarrow>
            Train_loop env find_splits leaf_count (Suc k) l r tree s = Inr tree)"
proof
  have ne: "best_split_per_leaf st \<noteq> []" using assms(2,3) by auto
  have "\<forall>n \<in> set (nodes (new_Tree n_leaves)). 0 < split_gain n"
    by (simp add: new_Tree_def)
  from Train_loop_invariant [of find_splits st "new_Tree n_leaves" env leaf_count "nat (n_leaves - 1)" 0 "-1",
      OF assms(1) ne this]
  obtain tree where t: "Train env find_splits leaf_count n_leaves st = Inr tree"
      "length (nodes tree) \<le> length (nodes (new_Tree n_leaves)) + nat (n_leaves - 1)"
      "\<forall>n \<in> set (nodes tree). 0 < split_gain n"
    unfolding Train_def by blast
  have "Tree_num_leaves tree \<le> n_leaves"
    using t(2) assms(2) by (simp add: Tree_num_leaves_def new_Tree_def)
  then show "\<exists>tree. Train env find_splits leaf_count n_leaves st = Inr tree \<and>
            Tree_num_leaves tree \<le> n_leaves \<and>
            (\<forall>n \<in> set (nodes tree). 0 < split_gain n)"
    using t(1,3) by blast
next
  show "\<forall>k l r tree s.
            gain (best_split_per_leaf (search_phase env find_splits l r tree s)
                    ! ArgMax_gain (best_split_per_leaf (search_phase env find_splits l r tree s))) \<le> 0 \<and>
            best_split_per_leaf s \<noteq> [] \<longrightarrow>
            Train_loop env find_splits leaf_count (Suc k) l r tree s = Inr tree"
  proof (intro allI impI)
    fix k l r tree s
    assume a: "gain (best_split_per_leaf (search_phase env find_splits l r tree s)
                    ! ArgMax_gain (best_split_per_leaf (search_phase env find_splits l r tree s))) \<le> 0 \<and>
            best_split_per_leaf s \<noteq> []"
    have "best_split_per_leaf (search_phase env find_splits l r tree s) \<noteq> []"
      using length_search_phase [of find_splits env l r tree s, OF assms(1)] a by auto
    then have "ArgMax_gain (best_split_per_leaf (search_phase env find_splits l r tree s))
                 < length (best_split_per_leaf (search_phase env find_splits l r tree s))"
      by (rule ArgMax_gain_less)
    then show "Train_loop env find_splits leaf_count (Suc k) l r tree s = Inr tree"
      using a by (simp add: Let_def)
  qed
qed

theorem C2_train_witness:
  "(\<forall>t s. length (best_split_per_leaf (ex_find_splits t s)) = length (best_split_per_leaf s)) \<and>
   (1::int) \<le> 2 \<and> length (best_split_per_leaf ex_learner) = nat 2 \<and>
   (\<exists>tree. Train ex_env ex_find_splits (\<lambda>t l. 4) 2 ex_learner = Inr tree \<and>
            Tree_num_leaves tree \<le> 2 \<and> (\<forall>n \<in> set (nodes tree). 0 < split_gain n))"
proof -
  have h1: "\<And>t s. length (best_split_per_leaf (ex_find_splits t s)) = length (best_split_per_leaf s)"
    by (simp add: ex_find_splits_def)
  have h2: "(1::int) \<le> 2" by simp
  have h3: "length (best_split_per_leaf ex_learner) = nat 2"
    by (simp add: ex_learner_def)
  from C2_train_bounded_and_positive_gain [of ex_find_splits 2 ex_learner ex_env "\<lambda>t l. 4", OF h1 h2 h3]
  show ?thesis using h1 h3 by simp
qed

theorem C9_equal_counts_witness:
  "left_count (ex_info 1) = right_count (ex_info 1) \<and>
   GetGlobalDataCountInLeaf (ex_env (new_Tree 2)) 0 = GetGlobalDataCountInLeaf (ex_env (new_Tree 2)) 1 \<and>
   (0::int) \<le> 1 \<and>
   fst (BeforeFindBestSplit (ex_env (new_Tree 2)) 0 1 ex_learner) \<and>
   LeafIndex (fst (Split_leaf_splits (ex_info 1) (\<lambda>l. 4) 0 1)) = 1 \<and>
   LeafIndex (snd (Split_leaf_splits (ex_info 1) (\<lambda>l. 4) 0 1)) = 0 \<and>
   fst (snd (BeforeFindBestSplit (ex_env (new_Tree 2)) 0 1 ex_learner)) = 1 \<and>
   fst (snd (snd (BeforeFindBestSplit (ex_env (new_Tree 2)) 0 1 ex_learner))) = 0"
proof -
  have h1: "left_count (ex_info 1) = right_count (ex_info 1)"
    by (simp add: ex_info_def)
  have h2: "GetGlobalDataCountInLeaf (ex_env (new_Tree 2)) 0 = GetGlobalDataCountInLeaf (ex_env (new_Tree 2)) 1"
    by (simp add: ex_env_def)
  have h3: "(0::int) \<le> 1" by simp
  have ok: "fst (BeforeFindBestSplit (ex_env (new_Tree 2)) 0 1 ex_learner)"
    by (simp add: BeforeFindBestSplit_def ex_env_def)
  then obtain sm lg st' where
    r: "BeforeFindBestSplit (ex_env (new_Tree 2)) 0 1 ex_learner = (True, sm, lg, st')"
    by (metis (full_types) prod.collapse)
  from C9_equal_counts_right_is_smaller [OF h1 h2 h3 r, of "\<lambda>l. 4"]
  show ?thesis using h1 h2 ok r by simp
qed

text \<open>
  C4.  The claim: every query is accepted or rejected as a whole, with one draw per
  query.  The filter advances \<open>qid\<close> by one per row at most.  With the boundaries
  \<open>[0, 0, 2]\<close> (an empty first query, then a query of the rows 0 and 1) row 0 is taken
  for the start of query 0 and row 1 for the start of query 1: two draws decide the two
  rows of the one query, and with the draws 0 and 1 worker 0 keeps row 0 and drops row 1.
\<close>

theorem C4_empty_query_splits_next_query:
  "used_data_indices_by_query (\<lambda>n. if n = 0 then 0 else 1) 0 [0, 0, 2] 2 2 = Inr [0]"
  by (simp add: used_data_indices_by_query_def QuerySampler_init_def query_filter_def upt_rec)

lemma update_hist_other_index [simp]:
  "g \<noteq> f \<Longrightarrow> update_hist H a g u a' ! f = H a' ! f"
  by (simp add: update_hist_def)

lemma update_hist_other_addr [simp]:
  "a' \<noteq> a \<Longrightarrow> update_hist H a g u a' = H a'"
  by (simp add: update_hist_def)

lemma update_hist_same [simp]:
  "f < length (H a) \<Longrightarrow> update_hist H a f u a ! f = u (H a ! f)"
  by (simp add: update_hist_def)

lemma length_update_hist [simp]:
  "length (update_hist H a g u a') = length (H a')"
  by (simp add: update_hist_def)



lemma FindBestThresholds_feature_frame:
  assumes "FindBestThresholds_feature lh sa g st = Inr st'"
  shows "is_feature_used st' = is_feature_used st"
    and "parent_leaf_histogram_array st' = parent_leaf_histogram_array st"
    and "smaller_leaf_histogram_array st' = smaller_leaf_histogram_array st"
    and "larger_leaf_histogram_array st' = larger_leaf_histogram_array st"
    and "smaller_leaf_splits st' = smaller_leaf_splits st"
    and "larger_leaf_splits st' = larger_leaf_splits st"
    and "length (histograms st' a) = length (histograms st a)"
    and "g \<noteq> f \<Longrightarrow> histograms st' a ! f = histograms st a ! f"
  using assms
  by (auto simp: FindBestThresholds_feature_def Let_def split: if_splits option.splits)

lemma FindBestThresholds_loop_frame:
  assumes "FindBestThresholds_loop lh sa gs st = Inr st'"
  shows "is_feature_used st' = is_feature_used st \<and>
         parent_leaf_histogram_array st' = parent_leaf_histogram_array st \<and>
         smaller_leaf_histogram_array st' = smaller_leaf_histogram_array st \<and>
         larger_leaf_histogram_array st' = larger_leaf_histogram_array st \<and>
         smaller_leaf_splits st' = smaller_leaf_splits st \<and>
         larger_leaf_splits st' = larger_leaf_splits st \<and>
         (\<forall>a. length (histograms st' a) = length (histograms st a)) \<and>
         (f \<notin> set gs \<longrightarrow> (\<forall>a. histograms st' a ! f = histograms st a ! f))"
  using assms
proof (induction gs arbitrary: st)
  case Nil
  then show ?case by simp
next
  case (Cons g gs)
  then obtain st1 where s1: "FindBestThresholds_feature lh sa g st = Inr st1"
      and r: "FindBestThresholds_loop lh sa gs st1 = Inr st'"
    by (auto split: sum.splits)
  note fr = FindBestThresholds_feature_frame [OF s1]
  show ?case
    using Cons.IH [OF r] fr by simp
qed

lemma FindBestThresholds_feature_defined:
  assumes "smaller_leaf_histogram_array st = Some s" "larger_leaf_histogram_array st = Some l"
  shows "\<exists>st'. FindBestThresholds_feature lh sa g st = Inr st'"
  using assms
  by (simp add: FindBestThresholds_feature_def Let_def split: option.splits)

lemma FindBestThresholds_loop_defined:
  assumes "smaller_leaf_histogram_array st = Some s" "larger_leaf_histogram_array st = Some l"
  shows "\<exists>st'. FindBestThresholds_loop lh sa gs st = Inr st'"
  using assms
proof (induction gs arbitrary: st)
  case Nil
  then show ?case by simp
next
  case (Cons g gs)
  from FindBestThresholds_feature_defined [OF Cons.prems] obtain st1
    where s1: "FindBestThresholds_feature lh sa g st = Inr st1" by blast
  note fr = FindBestThresholds_feature_frame [OF s1]
  have "\<exists>st'. FindBestThresholds_loop lh sa gs st1 = Inr st'"
    using Cons.IH [of st1] fr(3,4) Cons.prems by simp
  then show ?case using s1 by simp
qed

lemma FindBestThresholds_loop_append:
  "FindBestThresholds_loop lh sa (xs @ ys) st =
     (case FindBestThresholds_loop lh sa xs st of
        Inl e \<Rightarrow> Inl e
      | Inr st1 \<Rightarrow> FindBestThresholds_loop lh sa ys st1)"
  by (induction xs arbitrary: st) (auto split: sum.splits)

lemma Add_Subtract_entry: "Add_entry s (Subtract_entry p s) = p"
  by (simp add: Add_entry_def Subtract_entry_def)

lemma FindBestThresholds_feature_processed:
  assumes "parent_leaf_histogram_array st = Some pa" "larger_leaf_histogram_array st = Some pa"
      and "smaller_leaf_histogram_array st = Some s" "s \<noteq> pa"
      and "larger_leaf_splits st = Some ls" "0 \<le> LeafIndex ls"
      and "case is_feature_used st of None \<Rightarrow> True | Some u \<Rightarrow> u ! f"
      and "is_splittable (histograms st pa ! f)"
      and "f < length (histograms st pa)" "f < length (histograms st s)"
      and "FindBestThresholds_feature lh sa f st = Inr st'"
  shows "data (histograms st' s ! f) = lh (LeafIndex (smaller_leaf_splits st)) f"
    and "data (histograms st' pa ! f) =
           map2 Subtract_entry (data (histograms st pa ! f)) (lh (LeafIndex (smaller_leaf_splits st)) f)"
  using assms
  by (auto simp: FindBestThresholds_feature_def Let_def FindBestThreshold_def Construct_def
      Subtract_def split: option.splits)

lemma FindBestThresholds_feature_skipped:
  assumes "parent_leaf_histogram_array st = Some pa"
      and "\<not> ((case is_feature_used st of None \<Rightarrow> True | Some u \<Rightarrow> u ! f) \<and>
              is_splittable (histograms st pa ! f))"
      and "FindBestThresholds_feature lh sa f st = Inr st'"
  shows "data (histograms st' a ! f) = data (histograms st a ! f)"
proof (cases "f < length (histograms st a)")
  case True
  then show ?thesis
    using assms
    by (auto simp: FindBestThresholds_feature_def Let_def update_hist_def
        split: option.splits if_splits)
next
  case False
  then have "length (histograms st a) \<le> f" by simp
  then have "\<And>x. (histograms st a)[f := x] = histograms st a"
    by (rule list_update_beyond)
  then show ?thesis
    using assms
    by (auto simp: FindBestThresholds_feature_def Let_def update_hist_def
        split: option.splits if_splits)
qed

text \<open>
  C1, amended.  After a split whose parent histograms are cached (the parent pointer and
  the larger leaf's pointer are the same array, the smaller leaf has another one),
  \<open>FindBestThresholds\<close> returns, and for every feature \<open>f\<close> that is in use and whose
  parent histogram is splittable: the smaller child's bins are the ones built from its
  rows, the larger child's bins are the parent's minus the smaller child's, bin by bin,
  and so each parent bin is the sum of the two children's bins (exactly for the 32-bit
  counts, and for the sums as real numbers).  For any other feature the bins of both
  arrays are left as they were.
\<close>

theorem C1_subtraction_for_processed_features:
  assumes "parent_leaf_histogram_array st = Some pa" "larger_leaf_histogram_array st = Some pa"
      and "smaller_leaf_histogram_array st = Some s" "s \<noteq> pa"
      and "larger_leaf_splits st = Some ls" "0 \<le> LeafIndex ls"
      and "f < num_features st" "f < length (histograms st pa)" "f < length (histograms st s)"
  shows "\<exists>st'. FindBestThresholds lh sa st = Inr st' \<and>
           (if (case is_feature_used st of None \<Rightarrow> True | Some u \<Rightarrow> u ! f) \<and>
               is_splittable (histograms st pa ! f)
            then data (histograms st' s ! f) = lh (LeafIndex (smaller_leaf_splits st)) f \<and>
                 data (histograms st' pa ! f) =
                   map2 Subtract_entry (data (histograms st pa ! f)) (data (histograms st' s ! f)) \<and>
                 (\<forall>b < length (data (histograms st' pa ! f)).
                    Add_entry (data (histograms st' s ! f) ! b) (data (histograms st' pa ! f) ! b) =
                    data (histograms st pa ! f) ! b)
            else data (histograms st' s ! f) = data (histograms st s ! f) \<and>
                 data (histograms st' pa ! f) = data (histograms st pa ! f))"
proof -
  let ?n = "num_features st"
  have a: "[0..<?n] = [0..<f] @ [f..<?n]"
    using upt_add_eq_append [of 0 f "?n - f"] assms(7) by simp
  have b: "[f..<?n] = f # [Suc f..<?n]"
    using assms(7) by (rule upt_conv_Cons)
  obtain st1 where l1: "FindBestThresholds_loop lh sa [0..<f] st = Inr st1"
    using FindBestThresholds_loop_defined [OF assms(3) assms(2)] by blast
  note f1 = FindBestThresholds_loop_frame [OF l1, of f]
  have p1: "parent_leaf_histogram_array st1 = Some pa" "larger_leaf_histogram_array st1 = Some pa"
      "smaller_leaf_histogram_array st1 = Some s" "larger_leaf_splits st1 = Some ls"
      "is_feature_used st1 = is_feature_used st" "smaller_leaf_splits st1 = smaller_leaf_splits st"
    using f1 assms(1,2,3,5) by simp_all
  have h1: "\<And>a. histograms st1 a ! f = histograms st a ! f"
      "\<And>a. length (histograms st1 a) = length (histograms st a)"
    using f1 by simp_all
  obtain st2 where s2: "FindBestThresholds_feature lh sa f st1 = Inr st2"
    using FindBestThresholds_feature_defined [OF p1(3) p1(2)] by blast
  note f2 = FindBestThresholds_feature_frame [OF s2]
  have p2: "smaller_leaf_histogram_array st2 = Some s" "larger_leaf_histogram_array st2 = Some pa"
    using f2(3,4) p1(2,3) by simp_all
  obtain st' where l3: "FindBestThresholds_loop lh sa [Suc f..<?n] st2 = Inr st'"
    using FindBestThresholds_loop_defined [OF p2] by blast
  note f3 = FindBestThresholds_loop_frame [OF l3, of f]
  have h3: "\<And>a. histograms st' a ! f = histograms st2 a ! f"
    using f3 by simp
  have run: "FindBestThresholds lh sa st = Inr st'"
    by (simp add: FindBestThresholds_def a b FindBestThresholds_loop_append l1 s2 l3)
  show ?thesis
  proof (cases "(case is_feature_used st of None \<Rightarrow> True | Some u \<Rightarrow> u ! f) \<and>
                is_splittable (histograms st pa ! f)")
    case True
    have u1: "case is_feature_used st1 of None \<Rightarrow> True | Some u \<Rightarrow> u ! f"
      using True p1(5) by simp
    have sp1: "is_splittable (histograms st1 pa ! f)"
      using True h1(1) by simp
    have len1: "f < length (histograms st1 pa)" "f < length (histograms st1 s)"
      using h1(2) assms(8,9) by simp_all
    note pr = FindBestThresholds_feature_processed
                [OF p1(1) p1(2) p1(3) assms(4) p1(4) assms(6) u1 sp1 len1 s2]
    have S: "data (histograms st' s ! f) = lh (LeafIndex (smaller_leaf_splits st)) f"
      using pr(1) h3 p1(6) by simp
    have L: "data (histograms st' pa ! f) =
               map2 Subtract_entry (data (histograms st pa ! f)) (data (histograms st' s ! f))"
      using pr(2) h3 h1(1) p1(6) S by simp
    have "\<forall>b < length (data (histograms st' pa ! f)).
            Add_entry (data (histograms st' s ! f) ! b) (data (histograms st' pa ! f) ! b) =
            data (histograms st pa ! f) ! b"
      unfolding L by (simp add: Add_Subtract_entry)
    then show ?thesis using run True S L by auto
  next
    case False
    then have sk: "\<not> ((case is_feature_used st1 of None \<Rightarrow> True | Some u \<Rightarrow> u ! f) \<and>
                     is_splittable (histograms st1 pa ! f))"
      using p1(5) h1(1) by simp
    have "\<And>a. data (histograms st' a ! f) = data (histograms st a ! f)"
      using FindBestThresholds_feature_skipped [OF p1(1) sk s2] h3 h1(1) by simp
    then show ?thesis using run False by auto
  qed
qed

lemma upt_0_2: "[0..<2] = [0, Suc 0]"
  by (simp add: upt_rec)

text \<open>
  C1 as stated fails for a feature that is not in use: \<open>FindBestThresholds\<close> skips it,
  the larger child's bins stay the parent's, the smaller child's bins stay what the array
  held before, and the parent is not their sum.
\<close>

theorem C1_unused_feature_counterexample:
  "case FindBestThresholds ex_leaf_histogram (\<lambda>bs. True) ex_after_split of
     Inl e \<Rightarrow> False
   | Inr st' \<Rightarrow> \<not> subtraction_identity_everywhere ex_leaf_histogram ex_after_split st'"
  by (simp add: FindBestThresholds_def FindBestThresholds_feature_def ex_after_split_def
      ex_leaf_histogram_def subtraction_identity_everywhere_def update_hist_def upt_0_2
      FindBestThreshold_def Construct_def Subtract_def Subtract_entry_def Add_entry_def
      bin_entry_def Let_def)

theorem C1_subtraction_witness:
  "parent_leaf_histogram_array ex_after_split = Some 0 \<and>
   larger_leaf_histogram_array ex_after_split = Some 0 \<and>
   smaller_leaf_histogram_array ex_after_split = Some 1 \<and>
   (\<exists>st'. FindBestThresholds ex_leaf_histogram (\<lambda>bs. True) ex_after_split = Inr st' \<and>
          data (histograms st' 1 ! 0) = [bin_entry 1 2 2, bin_entry (-1) 1 1] \<and>
          data (histograms st' 0 ! 0) = [bin_entry 2 3 3, bin_entry (-1) 2 2])"
proof -
  have h: "parent_leaf_histogram_array ex_after_split = Some 0"
      "larger_leaf_histogram_array ex_after_split = Some 0"
      "smaller_leaf_histogram_array ex_after_split = Some 1" "(1::nat) \<noteq> 0"
      "larger_leaf_splits ex_after_split = Some \<lparr> LeafIndex = 0, num_data_in_leaf = 5,
                                   leaf_sum_gradients = 1, leaf_sum_hessians = 5 \<rparr>"
      "0 \<le> LeafIndex \<lparr> LeafIndex = 0, num_data_in_leaf = 5,
                                   leaf_sum_gradients = 1, leaf_sum_hessians = 5 \<rparr>"
      "0 < num_features ex_after_split" "0 < length (histograms ex_after_split 0)"
      "0 < length (histograms ex_after_split 1)"
    by (simp_all add: ex_after_split_def)
  from C1_subtraction_for_processed_features [OF h, of ex_leaf_histogram "\<lambda>bs. True"]
  obtain st' where r: "FindBestThresholds ex_leaf_histogram (\<lambda>bs. True) ex_after_split = Inr st'"
      "data (histograms st' 1 ! 0) = ex_leaf_histogram (LeafIndex (smaller_leaf_splits ex_after_split)) 0"
      "data (histograms st' 0 ! 0) =
         map2 Subtract_entry (data (histograms ex_after_split 0 ! 0)) (data (histograms st' 1 ! 0))"
    by (auto simp: ex_after_split_def)
  have "data (histograms st' 1 ! 0) = [bin_entry 1 2 2, bin_entry (-1) 1 1]"
    using r(2) by (simp add: ex_leaf_histogram_def)
  moreover from this have "data (histograms st' 0 ! 0) = [bin_entry 2 3 3, bin_entry (-1) 2 2]"
    using r(3) by (simp add: ex_after_split_def Subtract_entry_def bin_entry_def)
  ultimately show ?thesis using h(1,2,3) r(1) by blast
qed

lemma le_value_le_bytes: "le_value (le_bytes n v) = v mod 256 ^ n"
proof (induction n arbitrary: v)
  case 0
  then show ?case by simp
next
  case (Suc n)
  have "unat (of_nat (v mod 256) :: byte) = v mod 256"
    by (simp add: unat_of_nat)
  then show ?case
    using Suc [of "v div 256"] by (simp add: mod_mult2_eq)
qed

lemma length_le_bytes [simp]: "length (le_bytes n v) = n"
  by (induction n arbitrary: v) simp_all

lemma read_raw_append: "length b = n \<Longrightarrow> read_raw n (b @ r) = Inr (b, r)"
  by (simp add: read_raw_def)

lemma size_t_roundtrip: "(of_nat (le_value (bytes_of_size_t w)) :: 64 word) = w"
proof -
  have "unat w < 2 ^ 64" using unsigned_less [of w, where ?'a = nat] by simp
  then have "unat w mod 256 ^ 8 = unat w" by simp
  then show ?thesis by (simp add: bytes_of_size_t_def le_value_le_bytes)
qed

lemma int_roundtrip: "(of_nat (le_value (bytes_of_int w)) :: 32 word) = w"
proof -
  have "unat w < 2 ^ 32" using unsigned_less [of w, where ?'a = nat] by simp
  then have "unat w mod 256 ^ 4 = unat w" by simp
  then show ?thesis by (simp add: bytes_of_int_def le_value_le_bytes)
qed

lemma read_size_t_bytes: "read_size_t (bytes_of_size_t w @ r) = Inr (w, r)"
  by (simp add: read_size_t_def read_then_def read_done_def read_raw_append [of _ 8]
      bytes_of_size_t_def size_t_roundtrip [unfolded bytes_of_size_t_def])

lemma read_int_bytes: "read_int (bytes_of_int w @ r) = Inr (w, r)"
  by (simp add: read_int_def read_then_def read_done_def read_raw_append [of _ 4]
      bytes_of_int_def int_roundtrip [unfolded bytes_of_int_def])

lemma read_bool_bytes: "read_bool (bytes_of_bool b @ r) = Inr (b, r)"
  by (simp add: read_bool_def read_then_def read_done_def read_raw_def bytes_of_bool_def)

lemma read_ints_bytes:
  "read_ints (length xs) (concat (map bytes_of_int xs) @ r) = Inr (xs, r)"
  by (induction xs) (simp_all add: read_done_def read_then_def read_int_bytes)

lemma char_of_byte_of_char: "char_of_byte (byte_of_char c) = c"
  by (simp add: char_of_byte_def byte_of_char_def unat_of_nat)


lemma sint_of_nat_small:
  assumes "n < 2 ^ 31"
  shows "sint (of_nat n :: 32 word) = int n"
proof -
  have "signed_take_bit 31 (int n) = int n"
    using assms by (intro signed_take_bit_int_eq_self) auto
  then show ?thesis by (simp add: signed_of_nat)
qed

lemma read_name_bytes:
  assumes "length n < 2 ^ 31"
  shows "name_bytes n = Inr (bytes_of_int (of_nat (length n)) @ map byte_of_char n)"
    and "read_name (bytes_of_int (of_nat (length n)) @ map byte_of_char n @ r) = Inr (n, r)"
  using sint_of_nat_small [OF assms]
  by (simp_all add: name_bytes_def read_name_def read_then_def read_done_def read_int_bytes
      read_raw_def char_of_byte_of_char comp_def)

lemma read_names_bytes:
  assumes "\<forall>n \<in> set ns. length n < 2 ^ 31"
  shows "\<exists>bs. names_bytes ns = Inr bs \<and>
              length bs = sum_list (map (\<lambda>n. length n + 4) ns) \<and>
              (\<forall>r. read_names (length ns) (bs @ r) = Inr (ns, r))"
  using assms
proof (induction ns)
  case Nil
  then show ?case by (simp add: read_done_def)
next
  case (Cons n ns)
  then obtain bs where bs: "names_bytes ns = Inr bs"
      "length bs = sum_list (map (\<lambda>n. length n + 4) ns)"
      "\<And>r. read_names (length ns) (bs @ r) = Inr (ns, r)"
    by auto
  have n: "length n < 2 ^ 31" using Cons.prems by simp
  show ?case
    using bs read_name_bytes [OF n]
    by (simp add: read_then_def read_done_def bytes_of_int_def)
qed

lemma length_names_bytes:
  "names_bytes ns = Inr bs \<Longrightarrow> \<forall>n \<in> set ns. length n < 2 ^ 31 \<Longrightarrow>
   length bs = sum_list (map (\<lambda>n. length n + 4) ns)"
  using read_names_bytes [of ns] by auto

lemma foldl_size_of_header:
  "foldl (\<lambda>acc i. acc + of_nat (g i) + 4) (a :: 64 word) [0..<k] =
     a + of_nat (sum_list (map (\<lambda>i. g i + 4) [0..<k]))"
  by (induction k) (simp_all add: algebra_simps)

lemma map_nth_take:
  "k \<le> length xs \<Longrightarrow> map (\<lambda>i. f (xs ! i)) [0..<k] = map f (take k xs)"
  by (rule nth_equalityI) simp_all

lemma header_bytes_facts:
  assumes k: "loop_count (h_num_total_features d) \<le> length (h_feature_names d)"
      and short: "\<forall>n \<in> set (take (loop_count (h_num_total_features d)) (h_feature_names d)).
                    length n < 2 ^ 31"
  shows "\<exists>hb. header_bytes d = Inr hb \<and> length hb = header_length d \<and>
              size_of_header d = of_nat (length hb) \<and>
              (length (h_used_feature_map d) < 2 ^ 64 \<longrightarrow>
               (\<forall>r. read_header (hb @ r) =
                  Inr (d\<lparr>h_feature_names :=
                          take (loop_count (h_num_total_features d)) (h_feature_names d)\<rparr>, r)))"
proof -
  let ?k = "loop_count (h_num_total_features d)"
  let ?ns = "take ?k (h_feature_names d)"
  from read_names_bytes [OF short] obtain nb where nb: "names_bytes ?ns = Inr nb"
      "length nb = sum_list (map (\<lambda>n. length n + 4) ?ns)"
      "\<And>r. read_names (length ?ns) (nb @ r) = Inr (?ns, r)"
    by blast
  have lk: "length ?ns = ?k" using k by simp
  let ?hb = "bytes_of_size_t (h_global_num_data d) @ bytes_of_bool (h_is_enable_sparse d) @
               bytes_of_int (h_max_bin d) @ bytes_of_int (h_num_data d) @
               bytes_of_int (h_num_features d) @ bytes_of_int (h_num_total_features d) @
               bytes_of_size_t (of_nat (length (h_used_feature_map d))) @
               concat (map bytes_of_int (h_used_feature_map d)) @ nb"
  have hb: "header_bytes d = Inr ?hb"
    using k nb(1) by (simp add: header_bytes_def)
  have lc: "length (concat (map bytes_of_int (h_used_feature_map d))) = 4 * length (h_used_feature_map d)"
    by (induction "h_used_feature_map d" arbitrary: d) (simp_all add: length_concat bytes_of_int_def comp_def sum_list_triv)
  have len: "length ?hb = header_length d"
    by (simp add: header_length_def nb(2) lc bytes_of_size_t_def bytes_of_int_def bytes_of_bool_def)
  have "map (\<lambda>i. length (h_feature_names d ! i) + 4) [0..<?k] = map (\<lambda>n. length n + 4) ?ns"
    using map_nth_take [OF k, of "\<lambda>n. length n + 4"] by simp
  then have sz: "size_of_header d = of_nat (header_length d)"
    by (simp add: size_of_header_def foldl_size_of_header header_length_def)
  have rd: "\<forall>r. read_header (?hb @ r) = Inr (d\<lparr>h_feature_names := ?ns\<rparr>, r)"
    if um: "length (h_used_feature_map d) < 2 ^ 64"
  proof
    fix r
    have u: "unat (of_nat (length (h_used_feature_map d)) :: 64 word) = length (h_used_feature_map d)"
      using um by (simp add: unat_of_nat)
    show "read_header (?hb @ r) = Inr (d\<lparr>h_feature_names := ?ns\<rparr>, r)"
      using nb(3) [of r] lk
      by (simp add: read_header_def read_then_def read_done_def read_size_t_bytes
          read_bool_bytes read_int_bytes read_ints_bytes u)
  qed
  show ?thesis using hb len sz rd by (metis (no_types, lifting))
qed

lemma le_value_bytes_of_size_t: "le_value (bytes_of_size_t w) = unat w"
proof -
  have "unat w < 2 ^ 64" using unsigned_less [of w, where ?'a = nat] by simp
  then have "unat w mod 256 ^ 8 = unat w" by simp
  then show ?thesis by (simp add: bytes_of_size_t_def le_value_le_bytes)
qed

lemma fread_blob_sized:
  assumes "unat w = length b"
  shows "fread_blob m1 m2 (bytes_of_size_t w @ b @ r) = Inr (b, r)"
proof -
  have v: "le_value (bytes_of_size_t w) = length b"
    using assms by (simp only: le_value_bytes_of_size_t)
  have "fread m1 8 (bytes_of_size_t w @ b @ r) = Inr (bytes_of_size_t w, b @ r)"
    by (simp add: fread_def bytes_of_size_t_def)
  then show ?thesis
    by (simp add: fread_blob_def read_then_def v fread_def)
qed

lemma fread_blob_bytes:
  assumes "length b < 2 ^ 64"
  shows "fread_blob m1 m2 (blob_bytes b @ r) = Inr (b, r)"
proof -
  have "unat (of_nat (length b) :: 64 word) = length b"
    using assms by (simp add: unat_of_nat)
  then show ?thesis
    using fread_blob_sized [of "of_nat (length b)" b m1 m2 r] by (simp add: blob_bytes_def)
qed

lemma fread_features_bytes:
  assumes "\<forall>b \<in> set bs. length b < 2 ^ 64"
  shows "fread_features (length bs) (concat (map blob_bytes bs) @ r) = Inr (bs, r)"
  using assms
  by (induction bs) (simp_all add: read_done_def read_then_def fread_blob_bytes)

lemma save_then_load:
  assumes k: "loop_count (h_num_total_features d) \<le> length (h_feature_names d)"
      and short: "\<forall>n \<in> set (take (loop_count (h_num_total_features d)) (h_feature_names d)).
                    length n < 2 ^ 31"
      and total: "header_length d < 2 ^ 64"
      and meta: "length metadata < 2 ^ 64"
      and nf: "loop_count (h_num_features d) \<le> length features"
      and fs: "\<forall>b \<in> set (take (loop_count (h_num_features d)) features). length b < 2 ^ 64"
  shows "\<exists>hb file.
           header_bytes d = Inr hb \<and> unat (size_of_header d) = length hb \<and>
           SaveBinaryFile False d metadata features = Inr (Some file) \<and>
           take 8 file = bytes_of_size_t (size_of_header d) \<and>
           take (length hb) (drop 8 file) = hb \<and>
           LoadDataFromBinFile NextInt queries_of file rnk 1 pre =
             Inr \<lparr> header =
                     d\<lparr>h_global_num_data := of_int (sint (h_num_data d)),
                       h_feature_names := take (loop_count (h_num_total_features d)) (h_feature_names d)\<rparr>,
                   metadata_blob = metadata,
                   feature_blobs = take (loop_count (h_num_features d)) features,
                   used_data_indices = [] \<rparr>"
proof -
  let ?fs = "take (loop_count (h_num_features d)) features"
  have um: "length (h_used_feature_map d) < 2 ^ 64"
    using total by (simp add: header_length_def)
  from header_bytes_facts [OF k short] um obtain hb where hb: "header_bytes d = Inr hb"
      "length hb = header_length d" "size_of_header d = of_nat (length hb)"
      "\<And>r. read_header (hb @ r) =
          Inr (d\<lparr>h_feature_names := take (loop_count (h_num_total_features d)) (h_feature_names d)\<rparr>, r)"
    by blast
  have sz: "unat (size_of_header d) = length hb"
    using total hb(2,3) by (simp add: unat_of_nat)
  let ?file = "bytes_of_size_t (size_of_header d) @ hb @ blob_bytes metadata @ concat (map blob_bytes ?fs)"
  have sv: "SaveBinaryFile False d metadata features = Inr (Some ?file)"
    using nf by (simp add: SaveBinaryFile_def hb(1))
  have l8: "length (bytes_of_size_t (size_of_header d)) = 8"
    by (simp add: bytes_of_size_t_def)
  have r1: "fread_blob ''Binary file format error at header size''
                      ''Binary file format error at header'' ?file =
              Inr (hb, blob_bytes metadata @ concat (map blob_bytes ?fs))"
    by (rule fread_blob_sized [OF sz])
  have r2: "fread_blob ''Binary file format error: wrong size of meta data''
                      ''Binary file format error: wrong size of meta data''
              (blob_bytes metadata @ concat (map blob_bytes ?fs)) =
              Inr (metadata, concat (map blob_bytes ?fs))"
    by (rule fread_blob_bytes [OF meta])
  have lf: "length ?fs = loop_count (h_num_features d)"
    using nf by simp
  have r3: "fread_features (loop_count (h_num_features d)) (concat (map blob_bytes ?fs)) = Inr (?fs, [])"
    using fread_features_bytes [OF fs, of "[]"] lf by simp
  have ld: "LoadDataFromBinFile NextInt queries_of ?file rnk 1 pre =
             Inr \<lparr> header =
                     d\<lparr>h_global_num_data := of_int (sint (h_num_data d)),
                       h_feature_names := take (loop_count (h_num_total_features d)) (h_feature_names d)\<rparr>,
                   metadata_blob = metadata, feature_blobs = ?fs, used_data_indices = [] \<rparr>"
    using hb(4) [of "[]"]
    by (simp add: LoadDataFromBinFile_def r1 r2 r3 Let_def)
  have t8: "take 8 ?file = bytes_of_size_t (size_of_header d)"
    using l8 by simp
  have th: "take (length hb) (drop 8 ?file) = hb"
    using l8 by simp
  show ?thesis using hb(1) sz sv ld t8 th by blast
qed


lemma ex_header_ok:
  "loop_count (h_num_total_features ex_header) \<le> length (h_feature_names ex_header)"
  "\<forall>n \<in> set (take (loop_count (h_num_total_features ex_header)) (h_feature_names ex_header)).
     length n < 2 ^ 31"
  "header_length ex_header < 2 ^ 64"
  "length ex_metadata < 2 ^ 64"
  "loop_count (h_num_features ex_header) \<le> length ex_features"
  "\<forall>b \<in> set (take (loop_count (h_num_features ex_header)) ex_features). length b < 2 ^ 64"
  by (simp_all add: ex_header_def loop_count_def header_length_def ex_metadata_def ex_features_def)

text \<open>
  C5 as stated fails for \<open>global_num_data\<close>: the loader overwrites it with \<open>num_data\<close>
  once the metadata is read, so the header of a worker's share of a partitioned data set
  (10 rows in all, 5 of them local) comes back with \<open>global_num_data = 5\<close>.
\<close>

theorem C5_global_num_data_counterexample:
  "\<not> header_restored ex_header ex_metadata ex_features"
proof -
  let ?d' = "ex_header\<lparr>h_global_num_data := of_int (sint (h_num_data ex_header)),
                h_feature_names := take (loop_count (h_num_total_features ex_header))
                                        (h_feature_names ex_header)\<rparr>"
  from save_then_load [OF ex_header_ok, of "\<lambda>n. 0" "\<lambda>m. None" 0 False]
  obtain saved where f:
      "SaveBinaryFile False ex_header ex_metadata ex_features = Inr (Some saved)"
      "LoadDataFromBinFile (\<lambda>n. 0) (\<lambda>m. None) saved 0 1 False =
         Inr \<lparr> header = ?d', metadata_blob = ex_metadata,
               feature_blobs = take (loop_count (h_num_features ex_header)) ex_features,
               used_data_indices = [] \<rparr>"
    by blast
  have ne: "?d' \<noteq> ex_header"
  proof
    assume "?d' = ex_header"
    then have "h_global_num_data ?d' = h_global_num_data ex_header"
      by (rule arg_cong)
    then show False by (simp add: ex_header_def)
  qed
  show ?thesis
    using ne by (simp add: header_restored_def f)
qed

text \<open>
  C5, amended.  For a dataset whose first \<open>num_total_features\<close> feature names exist and
  are shorter than \<open>2^31\<close>, whose header and blobs are shorter than \<open>2^64\<close> bytes and
  which has its \<open>num_features\<close> features, \<open>SaveBinaryFile\<close> writes a file that starts
  with \<open>size_of_header\<close> and the header bytes, the declared size being the number of
  header bytes written, and \<open>LoadDataFromBinFile\<close> on a single machine reads from it
  the same \<open>is_enable_sparse\<close>, \<open>max_bin\<close>, \<open>num_data\<close>, \<open>num_features\<close>,
  \<open>num_total_features\<close> and \<open>used_feature_map\<close>, the first \<open>num_total_features\<close>
  feature names, and \<open>global_num_data\<close> set to the restored \<open>num_data\<close>; the whole
  header is restored when \<open>global_num_data\<close> was equal to \<open>num_data\<close> and the names
  were \<open>num_total_features\<close> many.
\<close>

theorem C5_header_roundtrip:
  assumes "loop_count (h_num_total_features d) \<le> length (h_feature_names d)"
      and "\<forall>n \<in> set (take (loop_count (h_num_total_features d)) (h_feature_names d)).
             length n < 2 ^ 31"
      and "header_length d < 2 ^ 64"
      and "length metadata < 2 ^ 64"
      and "loop_count (h_num_features d) \<le> length features"
      and "\<forall>b \<in> set (take (loop_count (h_num_features d)) features). length b < 2 ^ 64"
  shows "\<exists>hb file.
           header_bytes d = Inr hb \<and> unat (size_of_header d) = length hb \<and>
           SaveBinaryFile False d metadata features = Inr (Some file) \<and>
           take 8 file = bytes_of_size_t (size_of_header d) \<and>
           take (length hb) (drop 8 file) = hb \<and>
           LoadDataFromBinFile NextInt queries_of file rnk 1 pre =
             Inr \<lparr> header =
                     d\<lparr>h_global_num_data := of_int (sint (h_num_data d)),
                       h_feature_names := take (loop_count (h_num_total_features d)) (h_feature_names d)\<rparr>,
                   metadata_blob = metadata,
                   feature_blobs = take (loop_count (h_num_features d)) features,
                   used_data_indices = [] \<rparr> \<and>
           (h_global_num_data d = of_int (sint (h_num_data d)) \<and>
            length (h_feature_names d) = loop_count (h_num_total_features d) \<longrightarrow>
            map_sum id header (LoadDataFromBinFile NextInt queries_of file rnk 1 pre) = Inr d)"
proof -
  let ?d' = "d\<lparr>h_global_num_data := of_int (sint (h_num_data d)),
               h_feature_names := take (loop_count (h_num_total_features d)) (h_feature_names d)\<rparr>"
  from save_then_load [OF assms, of NextInt queries_of rnk pre] obtain hb saved where hb:
      "header_bytes d = Inr hb" "unat (size_of_header d) = length hb"
      "SaveBinaryFile False d metadata features = Inr (Some saved)"
      "take 8 saved = bytes_of_size_t (size_of_header d)"
      "take (length hb) (drop 8 saved) = hb"
      "LoadDataFromBinFile NextInt queries_of saved rnk 1 pre =
             Inr \<lparr> header = ?d', metadata_blob = metadata,
                   feature_blobs = take (loop_count (h_num_features d)) features,
                   used_data_indices = [] \<rparr>"
    by blast
  have same: "h_global_num_data d = of_int (sint (h_num_data d)) \<and>
        length (h_feature_names d) = loop_count (h_num_total_features d) \<longrightarrow> ?d' = d"
    by auto
  have "h_global_num_data d = of_int (sint (h_num_data d)) \<and>
        length (h_feature_names d) = loop_count (h_num_total_features d) \<longrightarrow>
        map_sum id header (LoadDataFromBinFile NextInt queries_of saved rnk 1 pre) = Inr d"
    using same by (simp add: hb(6))
  then show ?thesis using hb by blast
qed

theorem C5_header_roundtrip_witness:
  "\<exists>hb file. header_bytes ex_header = Inr hb \<and> unat (size_of_header ex_header) = length hb \<and>
         length hb = 65 \<and>
         SaveBinaryFile False ex_header ex_metadata ex_features = Inr (Some file) \<and>
         LoadDataFromBinFile (\<lambda>n. 0) (\<lambda>m. None) file 0 1 False =
           Inr \<lparr> header = ex_header\<lparr>h_global_num_data := 5\<rparr>, metadata_blob = ex_metadata,
                 feature_blobs = ex_features, used_data_indices = [] \<rparr>"
proof -
  from C5_header_roundtrip [OF ex_header_ok, of "\<lambda>n. 0" "\<lambda>m. None" 0 False]
  obtain hb saved where hb: "header_bytes ex_header = Inr hb"
      "unat (size_of_header ex_header) = length hb"
      "SaveBinaryFile False ex_header ex_metadata ex_features = Inr (Some saved)"
      "LoadDataFromBinFile (\<lambda>n. 0) (\<lambda>m. None) saved 0 1 False =
           Inr \<lparr> header = ex_header\<lparr>h_global_num_data := of_int (sint (h_num_data ex_header)),
                  h_feature_names := take (loop_count (h_num_total_features ex_header))
                                          (h_feature_names ex_header)\<rparr>,
                 metadata_blob = ex_metadata,
                 feature_blobs = take (loop_count (h_num_features ex_header)) ex_features,
                 used_data_indices = [] \<rparr>"
    by blast
  have e: "ex_header\<lparr>h_global_num_data := of_int (sint (h_num_data ex_header)),
                  h_feature_names := take (loop_count (h_num_total_features ex_header))
                                          (h_feature_names ex_header)\<rparr> =
        ex_header\<lparr>h_global_num_data := 5\<rparr>"
    by (simp add: ex_header_def loop_count_def)
  have e2: "take (loop_count (h_num_features ex_header)) ex_features = ex_features"
    by (simp add: ex_header_def loop_count_def ex_features_def)
  from header_bytes_facts [OF ex_header_ok(1,2)] obtain hb' where
      hb': "header_bytes ex_header = Inr hb'" "length hb' = header_length ex_header"
    by blast
  have "hb' = hb" using hb(1) hb'(1) by simp
  then have l: "length hb = 65"
    using hb'(2) by (simp add: header_length_def ex_header_def loop_count_def)
  have ld: "LoadDataFromBinFile (\<lambda>n. 0) (\<lambda>m. None) saved 0 1 False =
           Inr \<lparr> header = ex_header\<lparr>h_global_num_data := 5\<rparr>, metadata_blob = ex_metadata,
                 feature_blobs = ex_features, used_data_indices = [] \<rparr>"
    using hb(4) unfolding e e2 .
  show ?thesis using hb(1,2,3) l ld by blast
qed

subsection \<open>Sampling by query when no query is empty\<close>

text \<open>
  When the boundaries increase strictly (no query is empty), start at 0 and reach the
  number of rows, the filter keeps exactly the rows of the queries whose draw is the
  worker's rank, the \<open>q\<close>-th draw deciding query \<open>q\<close>: the first query is admitted
  from \<open>qid = -1\<close>, and every query is kept or dropped as a whole.
\<close>

lemma sorted_nth_le_iff:
  "sorted xs \<Longrightarrow> j < length xs \<Longrightarrow>
   (xs ! j \<le> (i::int)) = (j < length (filter (\<lambda>b. b \<le> i) xs))"
proof (induction xs arbitrary: j)
  case Nil
  then show ?case by simp
next
  case (Cons x xs)
  show ?case
  proof (cases "x \<le> i")
    case True
    then show ?thesis
      using Cons by (cases j) auto
  next
    case False
    then have all: "\<forall>y \<in> set (x # xs). \<not> y \<le> i"
      using Cons.prems(1) by auto
    have "(x # xs) ! j \<in> set (x # xs)"
      using Cons.prems(2) by (rule nth_mem)
    then have n: "\<not> (x # xs) ! j \<le> i"
      using all by blast
    have "filter (\<lambda>b. b \<le> i) (x # xs) = []"
      using all by (auto simp: filter_empty_conv)
    with n show ?thesis by simp
  qed
qed

lemma count_le_step:
  assumes "distinct xs"
  shows "length (filter (\<lambda>b. b \<le> (i::int)) xs) \<le> Suc (length (filter (\<lambda>b. b \<le> i - 1) xs))"
  using assms
proof (induction xs)
  case Nil
  then show ?case by simp
next
  case (Cons x xs)
  show ?case
  proof (cases "x = i")
    case True
    then have ni: "i \<notin> set xs" using Cons.prems by simp
    have "\<And>y. y \<in> set xs \<Longrightarrow> (y \<le> i) = (y \<le> i - 1)"
    proof -
      fix y assume "y \<in> set xs"
      with ni have "y \<noteq> i" by blast
      then show "(y \<le> i) = (y \<le> i - 1)" by auto
    qed
    then have "filter (\<lambda>b. b \<le> i) xs = filter (\<lambda>b. b \<le> i - 1) xs"
      by (metis (mono_tags, lifting) filter_cong)
    then show ?thesis using True by simp
  next
    case False
    then show ?thesis using Cons by auto
  qed
qed

lemma count_le_mono:
  "length (filter (\<lambda>b. b \<le> (i::int) - 1) xs) \<le> length (filter (\<lambda>b. b \<le> i) xs)"
  by (induction xs) auto

lemma query_filter_step:
  assumes so: "sorted qb" and di: "distinct qb" and ne: "qb \<noteq> []" and hd0: "hd qb = 0"
      and i0: "0 \<le> i" and il: "i < last qb" and nq: "nq = int (length qb) - 1"
      and q: "qid s = query_index qb (i - 1)" and dr: "drawn s = nat (qid s + 1)"
      and u: "0 \<le> qid s \<longrightarrow> is_query_used s = (NextInt (nat (qid s)) = rnk)"
  shows "\<exists>s'. query_filter NextInt rnk qb nq i s = Inr (NextInt (nat (query_index qb i)) = rnk, s') \<and>
              qid s' = query_index qb i \<and> drawn s' = nat (qid s' + 1) \<and>
              (0 \<le> qid s' \<longrightarrow> is_query_used s' = (NextInt (nat (qid s')) = rnk))"
proof -
  define c where "c = (\<lambda>i. length (filter (\<lambda>b. b \<le> i) qb))"
  have len: "0 < length qb" using ne by simp
  have "qb ! 0 \<le> i" using hd0 i0 ne by (simp add: hd_conv_nth)
  then have c0: "0 < c i"
    using sorted_nth_le_iff [OF so len, of i] by (simp add: c_def)
  have "\<not> qb ! (length qb - 1) \<le> i"
    using il ne by (simp add: last_conv_nth)
  then have "\<not> length qb - 1 < c i"
    using sorted_nth_le_iff [OF so, of "length qb - 1" i] len by (simp add: c_def)
  then have cl: "c i < length qb" using len by linarith
  have cm: "c (i - 1) \<le> c i" unfolding c_def by (rule count_le_mono)
  have cs: "c i \<le> Suc (c (i - 1))" unfolding c_def by (rule count_le_step [OF di])
  have qs: "qid s = int (c (i - 1)) - 1" using q by (simp add: query_index_def c_def)
  have qi: "query_index qb i = int (c i) - 1" by (simp add: query_index_def c_def)
  have ds: "drawn s = c (i - 1)" using dr qs by simp
  have lt: "c (i - 1) < length qb" using cm cl by linarith
  have test: "(qb ! c (i - 1) \<le> i) = (c (i - 1) < c i)"
    using sorted_nth_le_iff [OF so lt, of i] by (simp add: c_def)
  have guard: "\<not> qid s \<ge> nq" "0 \<le> qid s + 1" "nat (qid s + 1) < length qb" "nat (qid s + 1) = c (i - 1)"
    using qs nq lt by simp_all
  show ?thesis
  proof (cases "c (i - 1) < c i")
    case True
    then have e: "c i = Suc (c (i - 1))" using cs by linarith
    have "query_filter NextInt rnk qb nq i s =
            Inr (NextInt (drawn s) = rnk,
                 \<lparr> qid = qid s + 1, is_query_used = (NextInt (drawn s) = rnk), drawn = Suc (drawn s) \<rparr>)"
      using guard test True by (simp add: query_filter_def Let_def)
    moreover have "nat (query_index qb i) = drawn s" "qid s + 1 = query_index qb i"
      using qi e ds qs by simp_all
    ultimately show ?thesis using ds e qi by auto
  next
    case False
    then have e: "c i = c (i - 1)" using cm by linarith
    have "query_filter NextInt rnk qb nq i s = Inr (is_query_used s, s)"
      using guard test False by (simp add: query_filter_def Let_def)
    moreover have "query_index qb i = qid s" using qi qs e by simp
    moreover have "0 \<le> qid s" using qs e c0 by simp
    ultimately show ?thesis using u dr by auto
  qed
qed

lemma sample_rows_whole_queries_from:
  assumes so: "sorted qb" and di: "distinct qb" and ne: "qb \<noteq> []" and hd0: "hd qb = 0"
      and nl: "int N \<le> last qb" and nq: "nq = int (length qb) - 1"
  shows "k \<le> N \<Longrightarrow> qid s = query_index qb (int k - 1) \<Longrightarrow> drawn s = nat (qid s + 1) \<Longrightarrow>
         (0 \<le> qid s \<longrightarrow> is_query_used s = (NextInt (nat (qid s)) = rnk)) \<Longrightarrow>
         sample_rows NextInt rnk qb nq (map int [k..<N]) s used =
           Inr (used @ filter (\<lambda>i. NextInt (nat (query_index qb i)) = rnk) (map int [k..<N]))"
proof (induction "N - k" arbitrary: k s used)
  case 0
  then show ?case by simp
next
  case (Suc n)
  then have kN: "k < N" by linarith
  then have up: "[k..<N] = k # [Suc k..<N]" by (rule upt_conv_Cons)
  have i0: "0 \<le> int k" by simp
  have il: "int k < last qb" using kN nl by linarith
  from query_filter_step [where NextInt = NextInt and rnk = rnk and s = s,
      OF so di ne hd0 i0 il nq Suc.prems(2) Suc.prems(3) Suc.prems(4)]
  obtain s' where s': "query_filter NextInt rnk qb nq (int k) s =
                          Inr (NextInt (nat (query_index qb (int k))) = rnk, s')"
      "qid s' = query_index qb (int k)" "drawn s' = nat (qid s' + 1)"
      "0 \<le> qid s' \<longrightarrow> is_query_used s' = (NextInt (nat (qid s')) = rnk)"
    by blast
  have n: "n = N - Suc k" using Suc.hyps(2) by linarith
  have q': "qid s' = query_index qb (int (Suc k) - 1)" using s'(2) by simp
  have "Suc k \<le> N" using kN by simp
  note ih = Suc.hyps(1) [where s = s', OF n this q' s'(3) s'(4)]
  show ?case
    by (simp add: up s'(1) ih)
qed

lemma sample_rows_whole_queries:
  assumes "sorted_wrt (<) qb" and "qb \<noteq> []" and "hd qb = 0" and "int N \<le> last qb"
  shows "used_data_indices_by_query NextInt rnk qb (int (length qb) - 1) N =
           Inr (filter (\<lambda>i. NextInt (nat (query_index qb i)) = rnk) (map int [0..<N]))"
proof -
  have so: "sorted qb" and di: "distinct qb"
    using assms(1) by (simp_all add: strict_sorted_iff)
  have "filter (\<lambda>b. b \<le> -1) qb = []"
  proof -
    have "\<forall>y \<in> set qb. 0 \<le> y"
      using so assms(2,3) by (cases qb) auto
    then show ?thesis by (auto simp: filter_empty_conv)
  qed
  then have q0: "qid QuerySampler_init = query_index qb (int 0 - 1)"
    by (simp add: QuerySampler_init_def query_index_def)
  have d0: "drawn QuerySampler_init = nat (qid QuerySampler_init + 1)"
    by (simp add: QuerySampler_init_def)
  have u0: "0 \<le> qid QuerySampler_init \<longrightarrow>
            is_query_used QuerySampler_init = (NextInt (nat (qid QuerySampler_init)) = rnk)"
    by (simp add: QuerySampler_init_def)
  have "0 \<le> N" by simp
  from sample_rows_whole_queries_from [where NextInt = NextInt and rnk = rnk and s = QuerySampler_init
      and used = "[]", OF so di assms(2,3,4) refl this q0 d0 u0]
  show ?thesis by (simp add: used_data_indices_by_query_def)
qed

end
